theory Spec2Isabelle
  imports Main "HOL-Library.Char_ord" "HOL-Library.List_Lexorder"
begin

section \<open>Exceptions\<close>

text \<open>
  Every \<^verbatim>\<open>raise\<close> of the source, and every exception the interpreter raises in the
  modelled code, is a value of type \<open>error\<close>; a function that can raise returns
  \<open>error + 'a\<close> with \<open>Inl\<close> for the exception. The string is the message (for a
  \<^verbatim>\<open>KeyError\<close> raised by a dictionary lookup, the key).
\<close>

datatype error = KeyError string | ValueError string | TypeError

section \<open>The tokenizer (utils.py)\<close>

text \<open>
  \<^verbatim>\<open>_parse_csv(text, delimiter, quote_char)\<close>. The \<^verbatim>\<open>while i < n\<close> loop is a recursion
  on the text that is still unread; its state is \<^verbatim>\<open>in_quotes\<close>, \<^verbatim>\<open>rows\<close>, \<^verbatim>\<open>row\<close> and
  \<^verbatim>\<open>field_chars\<close>. \<^verbatim>\<open>delimiter\<close> and \<^verbatim>\<open>quote_char\<close> are Python strings, compared with the
  one-character string \<^verbatim>\<open>ch\<close>: the test \<^verbatim>\<open>ch == quote_char\<close> is \<open>[ch] = quote_char\<close>.
  \<^verbatim>\<open>field_chars\<close> is kept joined (the source joins it with \<^verbatim>\<open>"".join\<close> whenever it reads it,
  and every element it appends is one character).
\<close>

abbreviation CR :: char where "CR \<equiv> CHR 0x0D"
abbreviation LF :: char where "LF \<equiv> CHR 0x0A"

type_synonym scan_state = "string list list \<times> string list \<times> string \<times> bool"

function parse_loop ::
  "string \<Rightarrow> string \<Rightarrow> string \<Rightarrow> bool \<Rightarrow> string list list \<Rightarrow> string list \<Rightarrow> string
    \<Rightarrow> error + scan_state" where
  "parse_loop delimiter quote_char [] in_quotes rows row field_chars =
     Inr (rows, row, field_chars, in_quotes)"
| "parse_loop delimiter quote_char (ch # rest) in_quotes rows row field_chars =
     (if in_quotes then
        (if [ch] = quote_char then
           (if rest \<noteq> [] \<and> [hd rest] = quote_char
            then parse_loop delimiter quote_char (tl rest) True rows row (field_chars @ quote_char)
            else parse_loop delimiter quote_char rest False rows row field_chars)
         else parse_loop delimiter quote_char rest True rows row (field_chars @ [ch]))
      else if [ch] = quote_char then
        (if field_chars \<noteq> [] then Inl (ValueError ''Unexpected quote inside unquoted field'')
         else parse_loop delimiter quote_char rest True rows row field_chars)
      else if [ch] = delimiter then
        parse_loop delimiter quote_char rest False rows (row @ [field_chars]) []
      else if ch = CR \<or> ch = LF then
        (let row' = row @ [field_chars];
             rest' = (if ch = CR \<and> rest \<noteq> [] \<and> hd rest = LF then tl rest else rest);
             rows' = (if (\<exists>cell \<in> set row'. cell \<noteq> '''') \<or> length row' > 1
                      then rows @ [row'] else rows)
         in parse_loop delimiter quote_char rest' False rows' [] [])
      else parse_loop delimiter quote_char rest False rows row (field_chars @ [ch]))"
  by pat_completeness auto
termination
  by (relation "measure (\<lambda>(d, q, text, iq, rows, row, fc). length text)") auto

definition parse_csv :: "string \<Rightarrow> string \<Rightarrow> string \<Rightarrow> error + string list list" where
  "parse_csv text delimiter quote_char =
     (case parse_loop delimiter quote_char text False [] [] [] of
        Inl e \<Rightarrow> Inl e
      | Inr (rows, row, field_chars, in_quotes) \<Rightarrow>
          if in_quotes then Inl (ValueError ''Unterminated quoted field at end of input'')
          else if field_chars \<noteq> [] \<or> row \<noteq> [] then Inr (rows @ [row @ [field_chars]])
          else Inr rows)"

text \<open>
  \<^verbatim>\<open>read_csv(source, delimiter, quote_char, has_header)\<close>, from the point where the content of
  \<^verbatim>\<open>source\<close> has been read and decoded into the string \<^verbatim>\<open>data\<close> (opening and reading the file
  is input/output and is not modelled). The result is a list of rows or, with a header, a list of
  dictionaries; a Python dictionary is an association list in insertion order whose keys are
  distinct, and \<open>dict_set\<close> is the assignment \<^verbatim>\<open>d[k] = v\<close>.
\<close>

datatype csv_result = Rows "string list list" | Dicts "(string \<times> string) list list"

fun dict_set :: "'k \<Rightarrow> 'v \<Rightarrow> ('k \<times> 'v) list \<Rightarrow> ('k \<times> 'v) list" where
  "dict_set k v [] = [(k, v)]"
| "dict_set k v ((k', v') # d) = (if k' = k then (k', v) # d else (k', v') # dict_set k v d)"

definition pad_row :: "string list \<Rightarrow> string list \<Rightarrow> string list" where
  "pad_row header r =
     (if length r < length header then r @ replicate (length header - length r) ''''
      else take (length header) r)"

definition read_csv :: "string \<Rightarrow> string \<Rightarrow> string \<Rightarrow> bool \<Rightarrow> error + csv_result" where
  "read_csv data delimiter quote_char has_header =
     (case parse_csv data delimiter quote_char of
        Inl e \<Rightarrow> Inl e
      | Inr rows \<Rightarrow>
          if \<not> has_header then Inr (Rows rows)
          else if rows = [] then Inr (Dicts [])
          else
            let header = hd rows in
            Inr (Dicts (map (\<lambda>r.
                   let padded = pad_row header r
                   in fold (\<lambda>i d. dict_set (header ! i) (padded ! i) d) [0..<length header] [])
                 (tl rows))))"

section \<open>The table (dataframe_loader.py)\<close>

text \<open>
  A cell holds a Python value. The values modelled are strings (what the CSV loader produces),
  integers and \<^verbatim>\<open>None\<close>; on these, Python's \<^verbatim>\<open>==\<close> and hashing (used for group and join keys)
  agree with equality of the datatype. Floats are not modelled as cell values.

  \<^verbatim>\<open>DataFrame._data\<close> is a dictionary from column names to lists, \<^verbatim>\<open>_length\<close> the row count.
\<close>

datatype pyval = PStr string | PInt int | PNone

type_synonym 'v coldict = "(string \<times> 'v list) list"

record 'v dataframe =
  df_data :: "'v coldict"
  df_length :: nat

text \<open>\<^verbatim>\<open>DataFrame.__init__\<close>: it raises when the column lengths differ.\<close>

definition DataFrame :: "'v coldict \<Rightarrow> error + 'v dataframe" where
  "DataFrame d =
     (if d = [] then Inr \<lparr>df_data = [], df_length = 0\<rparr>
      else
        let lengths = map (\<lambda>(col, vals). length vals) d in
        if card (set lengths) > 1 then Inl (ValueError ''All columns must have the same length'')
        else Inr \<lparr>df_data = d, df_length = (if lengths \<noteq> [] then hd lengths else 0)\<rparr>)"

text \<open>
  The class invariant that \<^verbatim>\<open>__init__\<close> establishes: the keys of the dictionary are distinct,
  every column has \<^verbatim>\<open>_length\<close> entries, and a table without columns has no rows. Under it every
  read \<^verbatim>\<open>self._data[col][i]\<close> with \<^verbatim>\<open>i < self._length\<close> of the code below is in range, so the
  \<^verbatim>\<open>IndexError\<close> of an out-of-range read does not occur and is not modelled; the theorems
  assume the invariant.
\<close>

definition wf_df :: "'v dataframe \<Rightarrow> bool" where
  "wf_df df \<longleftrightarrow>
     distinct (map fst (df_data df)) \<and>
     (\<forall>(col, vals) \<in> set (df_data df). length vals = df_length df) \<and>
     (df_data df = [] \<longrightarrow> df_length df = 0)"

definition columns :: "'v dataframe \<Rightarrow> string list" where
  "columns df = map fst (df_data df)"

definition shape :: "'v dataframe \<Rightarrow> nat \<times> nat" where
  "shape df = (df_length df, length (df_data df))"

text \<open>\<^verbatim>\<open>__getitem__\<close> with a string key.\<close>

definition getitem :: "'v dataframe \<Rightarrow> string \<Rightarrow> error + 'v list" where
  "getitem df key =
     (case map_of (df_data df) key of
        None \<Rightarrow> Inl (KeyError (''Column '' @ [CHR 0x27] @ key @ [CHR 0x27] @ '' not found''))
      | Some vals \<Rightarrow> Inr vals)"

text \<open>
  \<^verbatim>\<open>self._data[col]\<close> where the code has checked \<^verbatim>\<open>col\<close> or has taken it from the keys of
  \<^verbatim>\<open>self._data\<close>.
\<close>

definition data_of :: "'v dataframe \<Rightarrow> string \<Rightarrow> 'v list" where
  "data_of df col = the (map_of (df_data df) col)"

text \<open>
  \<^verbatim>\<open>result[col].append(v)\<close> on a \<^verbatim>\<open>defaultdict(list)\<close>: a new key is inserted last, with
  the one-element list.
\<close>

fun dd_append :: "'k \<Rightarrow> 'a \<Rightarrow> ('k \<times> 'a list) list \<Rightarrow> ('k \<times> 'a list) list" where
  "dd_append k v [] = [(k, [v])]"
| "dd_append k v ((k', vs) # d) =
     (if k' = k then (k', vs @ [v]) # d else (k', vs) # dd_append k v d)"

subsection \<open>filter\<close>

text \<open>
  The row handed to the predicate is the dictionary \<^verbatim>\<open>{col: self._data[col][i]}\<close>, in column
  order. The predicate is a pure, total function of it.
\<close>

definition row_at :: "'v dataframe \<Rightarrow> nat \<Rightarrow> (string \<times> 'v) list" where
  "row_at df i = map (\<lambda>(col, vals). (col, vals ! i)) (df_data df)"

definition filter_df :: "'v dataframe \<Rightarrow> ((string \<times> 'v) list \<Rightarrow> bool) \<Rightarrow> error + 'v dataframe" where
  "filter_df df condition =
     DataFrame
       (fold (\<lambda>i filtered_data.
                if condition (row_at df i)
                then fold (\<lambda>(col, vals). dd_append col (vals ! i)) (df_data df) filtered_data
                else filtered_data)
             [0..<df_length df] [])"

subsection \<open>join\<close>

text \<open>
  \<^verbatim>\<open>on\<close> and the argument of \<^verbatim>\<open>group_by\<close> are a string or a list of strings; a string stands
  for the one-element list.
\<close>

datatype col_arg = Str string | StrList "string list"

fun as_list :: "col_arg \<Rightarrow> string list" where
  "as_list (Str s) = [s]"
| "as_list (StrList l) = l"

fun validate_on :: "'v dataframe \<Rightarrow> 'v dataframe \<Rightarrow> string list \<Rightarrow> error option" where
  "validate_on self other [] = None"
| "validate_on self other (col # cols) =
     (if col \<notin> set (columns self)
      then Some (KeyError (''Column '' @ [CHR 0x27] @ col @ [CHR 0x27] @ '' not found in left DataFrame''))
      else if col \<notin> set (columns other)
      then Some (KeyError (''Column '' @ [CHR 0x27] @ col @ [CHR 0x27] @ '' not found in right DataFrame''))
      else validate_on self other cols)"

text \<open>The key of row \<open>i\<close>: \<^verbatim>\<open>tuple(df._data[col][i] for col in on)\<close>, and the hash index.\<close>

definition key_at :: "'v dataframe \<Rightarrow> string list \<Rightarrow> nat \<Rightarrow> 'v list" where
  "key_at df on i = map (\<lambda>col. data_of df col ! i) on"

definition build_index :: "'v dataframe \<Rightarrow> string list \<Rightarrow> ('v list \<times> nat list) list" where
  "build_index df on =
     fold (\<lambda>i index. dd_append (key_at df on i) i index) [0..<df_length df] []"

definition index_get :: "('k \<times> nat list) list \<Rightarrow> 'k \<Rightarrow> nat list" where
  "index_get index key = (case map_of index key of None \<Rightarrow> [] | Some matches \<Rightarrow> matches)"

text \<open>
  One output row: the three inner loops that append the join keys, the left columns and the
  right columns to \<^verbatim>\<open>result_data\<close>. \<open>kv\<close>, \<open>lv\<close> and \<open>rv\<close> give the value appended for a
  column (a cell of the row at hand, or \<^verbatim>\<open>None\<close>).
\<close>

definition add_row ::
  "string list \<Rightarrow> string list \<Rightarrow> string list \<Rightarrow> string set \<Rightarrow> string \<times> string
    \<Rightarrow> (string \<Rightarrow> 'v) \<Rightarrow> (string \<Rightarrow> 'v) \<Rightarrow> (string \<Rightarrow> 'v) \<Rightarrow> 'v coldict \<Rightarrow> 'v coldict" where
  "add_row on left_cols right_cols overlap suffixes kv lv rv result_data =
     (let r1 = fold (\<lambda>col. dd_append col (kv col)) on result_data;
          r2 = fold (\<lambda>col. dd_append (if col \<in> overlap then col @ fst suffixes else col) (lv col))
                 left_cols r1;
          r3 = fold (\<lambda>col. dd_append (if col \<in> overlap then col @ snd suffixes else col) (rv col))
                 right_cols r2
      in r3)"

text \<open>The block under \<^verbatim>\<open>if how in ['inner', 'left']\<close>.\<close>

definition join_inner_left ::
  "pyval dataframe \<Rightarrow> pyval dataframe \<Rightarrow> string list \<Rightarrow> string \<Rightarrow> string list \<Rightarrow> string list
    \<Rightarrow> string set \<Rightarrow> string \<times> string \<Rightarrow> (pyval list \<times> nat list) list
    \<Rightarrow> pyval coldict \<Rightarrow> pyval coldict" where
  "join_inner_left self other on how left_cols right_cols overlap suffixes right_index result_data =
     fold (\<lambda>i result_data.
             let key = key_at self on i;
                 right_matches = index_get right_index key
             in if right_matches \<noteq> [] then
                  fold (\<lambda>right_idx.
                          add_row on left_cols right_cols overlap suffixes
                            (\<lambda>col. data_of self col ! i)
                            (\<lambda>col. data_of self col ! i)
                            (\<lambda>col. data_of other col ! right_idx))
                       right_matches result_data
                else if how = ''left'' then
                  add_row on left_cols right_cols overlap suffixes
                    (\<lambda>col. data_of self col ! i)
                    (\<lambda>col. data_of self col ! i)
                    (\<lambda>col. PNone) result_data
                else result_data)
          [0..<df_length self] result_data"

text \<open>The block under \<^verbatim>\<open>if how == 'right'\<close>.\<close>

definition join_right ::
  "pyval dataframe \<Rightarrow> pyval dataframe \<Rightarrow> string list \<Rightarrow> string list \<Rightarrow> string list
    \<Rightarrow> string set \<Rightarrow> string \<times> string \<Rightarrow> pyval coldict \<Rightarrow> pyval coldict" where
  "join_right self other on left_cols right_cols overlap suffixes result_data =
     (let left_index = build_index self on in
      fold (\<lambda>i result_data.
              let key = key_at other on i;
                  left_matches = index_get left_index key
              in if left_matches \<noteq> [] then
                   fold (\<lambda>left_idx.
                           add_row on left_cols right_cols overlap suffixes
                             (\<lambda>col. data_of other col ! i)
                             (\<lambda>col. data_of self col ! left_idx)
                             (\<lambda>col. data_of other col ! i))
                        left_matches result_data
                 else
                   add_row on left_cols right_cols overlap suffixes
                     (\<lambda>col. data_of other col ! i)
                     (\<lambda>col. PNone)
                     (\<lambda>col. data_of other col ! i) result_data)
           [0..<df_length other] result_data)"

text \<open>
  The block under \<^verbatim>\<open>if how == 'outer'\<close>: the inner part, which records the matched row
  indices of both sides, then the unmatched left rows, then the unmatched right rows.
\<close>

definition outer_inner_part ::
  "pyval dataframe \<Rightarrow> pyval dataframe \<Rightarrow> string list \<Rightarrow> string list \<Rightarrow> string list
    \<Rightarrow> string set \<Rightarrow> string \<times> string \<Rightarrow> (pyval list \<times> nat list) list
    \<Rightarrow> pyval coldict \<times> nat set \<times> nat set \<Rightarrow> pyval coldict \<times> nat set \<times> nat set" where
  "outer_inner_part self other on left_cols right_cols overlap suffixes right_index state =
     fold (\<lambda>i (result_data, matched_left, matched_right).
             let key = key_at self on i;
                 right_matches = index_get right_index key
             in if right_matches \<noteq> [] then
                  fold (\<lambda>right_idx (result_data, matched_left, matched_right).
                          (add_row on left_cols right_cols overlap suffixes
                             (\<lambda>col. data_of self col ! i)
                             (\<lambda>col. data_of self col ! i)
                             (\<lambda>col. data_of other col ! right_idx) result_data,
                           matched_left, insert right_idx matched_right))
                       right_matches (result_data, insert i matched_left, matched_right)
                else (result_data, matched_left, matched_right))
          [0..<df_length self] state"

definition join_outer ::
  "pyval dataframe \<Rightarrow> pyval dataframe \<Rightarrow> string list \<Rightarrow> string list \<Rightarrow> string list
    \<Rightarrow> string set \<Rightarrow> string \<times> string \<Rightarrow> (pyval list \<times> nat list) list
    \<Rightarrow> pyval coldict \<Rightarrow> pyval coldict" where
  "join_outer self other on left_cols right_cols overlap suffixes right_index result_data =
     (case outer_inner_part self other on left_cols right_cols overlap suffixes right_index
             (result_data, {}, {}) of
        (r1, matched_left, matched_right) \<Rightarrow>
          let r2 = fold (\<lambda>i result_data.
                           if i \<notin> matched_left then
                             add_row on left_cols right_cols overlap suffixes
                               (\<lambda>col. data_of self col ! i)
                               (\<lambda>col. data_of self col ! i)
                               (\<lambda>col. PNone) result_data
                           else result_data)
                        [0..<df_length self] r1;
              r3 = fold (\<lambda>i result_data.
                           if i \<notin> matched_right then
                             add_row on left_cols right_cols overlap suffixes
                               (\<lambda>col. data_of other col ! i)
                               (\<lambda>col. PNone)
                               (\<lambda>col. data_of other col ! i) result_data
                           else result_data)
                        [0..<df_length other] r2
          in r3)"

text \<open>
  \<^verbatim>\<open>DataFrame.join\<close>. \<^verbatim>\<open>left_cols\<close> and \<^verbatim>\<open>right_cols\<close> are Python sets, and the code iterates
  them; the order in which a set yields its elements is not fixed by the language. It is the
  parameter \<open>set_order\<close>: applied to the elements of the set (listed in column order), it gives
  them in the order of iteration.
\<close>

definition join ::
  "(string list \<Rightarrow> string list) \<Rightarrow> pyval dataframe \<Rightarrow> pyval dataframe \<Rightarrow> col_arg \<Rightarrow> string
    \<Rightarrow> string \<times> string \<Rightarrow> error + pyval dataframe" where
  "join set_order self other on_arg how suffixes =
     (let on = as_list on_arg in
      case validate_on self other on of
        Some e \<Rightarrow> Inl e
      | None \<Rightarrow>
          let right_index = build_index other on;
              left_cols = set_order (filter (\<lambda>col. col \<notin> set on) (columns self));
              right_cols = set_order (filter (\<lambda>col. col \<notin> set on) (columns other));
              overlap = set left_cols \<inter> set right_cols;
              r0 = [];
              r1 = (if how = ''inner'' \<or> how = ''left''
                    then join_inner_left self other on how left_cols right_cols overlap suffixes
                           right_index r0
                    else r0);
              r2 = (if how = ''right''
                    then join_right self other on left_cols right_cols overlap suffixes r1
                    else r1);
              r3 = (if how = ''outer''
                    then join_outer self other on left_cols right_cols overlap suffixes
                           right_index r2
                    else r2)
          in DataFrame r3)"

subsection \<open>Aggregation\<close>

text \<open>
  An aggregate is a cell value or a float. Floats are left abstract (the type \<open>'f\<close>): the three
  operations of the code that produce one, \<^verbatim>\<open>sum(x) / len(x)\<close>, \<^verbatim>\<open>np.std\<close> and \<^verbatim>\<open>np.var\<close> (numpy is
  not part of the repository), are taken as parameters, each returning a float or raising.
\<close>

datatype 'f aggval = Val pyval | FloatVal 'f

record 'f float_ops =
  true_div :: "int \<Rightarrow> int \<Rightarrow> error + 'f"
  np_std :: "pyval list \<Rightarrow> error + 'f"
  np_var :: "pyval list \<Rightarrow> error + 'f"

text \<open>
  An aggregation is named by a string or is a callable (with its \<^verbatim>\<open>__name__\<close>); the value of
  the \<^verbatim>\<open>aggregations\<close> dictionary at a column is one of them or a list of them.
\<close>

datatype 'f func = FuncName string | Callable string "pyval list \<Rightarrow> error + 'f aggval"

datatype 'f funcs = One "'f func" | Several "'f func list"

fun funcs_list :: "'f funcs \<Rightarrow> 'f func list" where
  "funcs_list (One func) = [func]"
| "funcs_list (Several fs) = fs"

text \<open>
  The built-ins behind \<^verbatim>\<open>func_map\<close>. \<^verbatim>\<open>sum\<close> starts from \<^verbatim>\<open>0\<close> and adds the values in order;
  \<^verbatim>\<open>int + str\<close> and \<^verbatim>\<open>int + None\<close> raise \<^verbatim>\<open>TypeError\<close>. \<^verbatim>\<open>min\<close> and \<^verbatim>\<open>max\<close> raise
  \<^verbatim>\<open>ValueError\<close> on an empty list; otherwise they keep the first value and compare each later
  value with the one kept, \<^verbatim>\<open>x < m\<close> for \<^verbatim>\<open>min\<close> and \<^verbatim>\<open>x > m\<close> for \<^verbatim>\<open>max\<close>. Two integers compare
  as numbers, two strings lexicographically by code point, and every other pair raises
  \<^verbatim>\<open>TypeError\<close>.
\<close>

fun py_sum_loop :: "int \<Rightarrow> pyval list \<Rightarrow> error + int" where
  "py_sum_loop acc [] = Inr acc"
| "py_sum_loop acc (v # vs) =
     (case v of PInt n \<Rightarrow> py_sum_loop (acc + n) vs | _ \<Rightarrow> Inl TypeError)"

definition py_sum :: "pyval list \<Rightarrow> error + int" where
  "py_sum vals = py_sum_loop 0 vals"

fun py_lt :: "pyval \<Rightarrow> pyval \<Rightarrow> error + bool" where
  "py_lt (PInt a) (PInt b) = Inr (a < b)"
| "py_lt (PStr a) (PStr b) = Inr (a < b)"
| "py_lt _ _ = Inl TypeError"

definition py_gt :: "pyval \<Rightarrow> pyval \<Rightarrow> error + bool" where
  "py_gt a b = py_lt b a"

fun min_loop :: "pyval \<Rightarrow> pyval list \<Rightarrow> error + pyval" where
  "min_loop m [] = Inr m"
| "min_loop m (x # xs) =
     (case py_lt x m of Inl e \<Rightarrow> Inl e | Inr lt \<Rightarrow> min_loop (if lt then x else m) xs)"

definition py_min :: "pyval list \<Rightarrow> error + pyval" where
  "py_min vals =
     (case vals of
        [] \<Rightarrow> Inl (ValueError ''min() arg is an empty sequence'')
      | x # xs \<Rightarrow> min_loop x xs)"

fun max_loop :: "pyval \<Rightarrow> pyval list \<Rightarrow> error + pyval" where
  "max_loop m [] = Inr m"
| "max_loop m (x # xs) =
     (case py_gt x m of Inl e \<Rightarrow> Inl e | Inr gt \<Rightarrow> max_loop (if gt then x else m) xs)"

definition py_max :: "pyval list \<Rightarrow> error + pyval" where
  "py_max vals =
     (case vals of
        [] \<Rightarrow> Inl (ValueError ''max() arg is an empty sequence'')
      | x # xs \<Rightarrow> max_loop x xs)"

text \<open>\<^verbatim>\<open>DataFrame._apply_aggregation\<close>.\<close>

definition apply_aggregation :: "'f float_ops \<Rightarrow> pyval list \<Rightarrow> 'f func \<Rightarrow> error + 'f aggval" where
  "apply_aggregation ops vals func =
     (case func of
        Callable name f \<Rightarrow> f vals
      | FuncName name \<Rightarrow>
          if name = ''sum'' then
            (case py_sum vals of Inl e \<Rightarrow> Inl e | Inr s \<Rightarrow> Inr (Val (PInt s)))
          else if name = ''mean'' then
            (if length vals > 0 then
               (case py_sum vals of
                  Inl e \<Rightarrow> Inl e
                | Inr s \<Rightarrow>
                    (case true_div ops s (int (length vals)) of
                       Inl e \<Rightarrow> Inl e
                     | Inr q \<Rightarrow> Inr (FloatVal q)))
             else Inr (Val (PInt 0)))
          else if name = ''min'' then
            (case py_min vals of Inl e \<Rightarrow> Inl e | Inr m \<Rightarrow> Inr (Val m))
          else if name = ''max'' then
            (case py_max vals of Inl e \<Rightarrow> Inl e | Inr m \<Rightarrow> Inr (Val m))
          else if name = ''count'' then Inr (Val (PInt (int (length vals))))
          else if name = ''std'' then
            (if length vals > 0 then
               (case np_std ops vals of Inl e \<Rightarrow> Inl e | Inr s \<Rightarrow> Inr (FloatVal s))
             else Inr (Val (PInt 0)))
          else if name = ''var'' then
            (if length vals > 0 then
               (case np_var ops vals of Inl e \<Rightarrow> Inl e | Inr s \<Rightarrow> Inr (FloatVal s))
             else Inr (Val (PInt 0)))
          else Inl (ValueError (''Unknown aggregation function: '' @ name)))"

text \<open>The key of an output column: \<^verbatim>\<open>f"{col}_{func}"\<close> when several functions are asked for.\<close>

fun func_label :: "'f func \<Rightarrow> string" where
  "func_label (FuncName name) = name"
| "func_label (Callable name f) = name"

definition result_key :: "string \<Rightarrow> nat \<Rightarrow> 'f func \<Rightarrow> string" where
  "result_key col n func = (if n > 1 then col @ ''_'' @ func_label func else col)"




subsection \<open>Grouping\<close>

text \<open>
  \<^verbatim>\<open>GroupedDataFrame\<close>: the table, the group columns and the dictionary from group keys to row
  indices. \<^verbatim>\<open>_build_groups\<close> reads \<^verbatim>\<open>self._df._data[col]\<close> without a check, so a group column
  that the table lacks raises \<^verbatim>\<open>KeyError\<close> at the first row.
\<close>

record 'v grouped_dataframe =
  g_df :: "'v dataframe"
  g_group_cols :: "string list"
  g_groups :: "('v list \<times> nat list) list"

fun tuple_at :: "'v dataframe \<Rightarrow> nat \<Rightarrow> string list \<Rightarrow> error + 'v list" where
  "tuple_at df i [] = Inr []"
| "tuple_at df i (col # cols) =
     (case map_of (df_data df) col of
        None \<Rightarrow> Inl (KeyError col)
      | Some vals \<Rightarrow>
          (case tuple_at df i cols of Inl e \<Rightarrow> Inl e | Inr t \<Rightarrow> Inr (vals ! i # t)))"

fun build_groups_loop ::
  "'v dataframe \<Rightarrow> string list \<Rightarrow> nat list \<Rightarrow> ('v list \<times> nat list) list
    \<Rightarrow> error + ('v list \<times> nat list) list" where
  "build_groups_loop df group_cols [] groups = Inr groups"
| "build_groups_loop df group_cols (i # rest) groups =
     (case tuple_at df i group_cols of
        Inl e \<Rightarrow> Inl e
      | Inr key \<Rightarrow> build_groups_loop df group_cols rest (dd_append key i groups))"

definition build_groups :: "'v dataframe \<Rightarrow> string list \<Rightarrow> error + ('v list \<times> nat list) list" where
  "build_groups df group_cols = build_groups_loop df group_cols [0..<df_length df] []"

definition GroupedDataFrame :: "'v dataframe \<Rightarrow> string list \<Rightarrow> error + 'v grouped_dataframe" where
  "GroupedDataFrame df group_cols =
     (case build_groups df group_cols of
        Inl e \<Rightarrow> Inl e
      | Inr groups \<Rightarrow> Inr \<lparr>g_df = df, g_group_cols = group_cols, g_groups = groups\<rparr>)"

definition group_by :: "'v dataframe \<Rightarrow> col_arg \<Rightarrow> error + 'v grouped_dataframe" where
  "group_by df cols = GroupedDataFrame df (as_list cols)"

text \<open>
  \<^verbatim>\<open>GroupedDataFrame.agg\<close>: for every group, in the order of the dictionary, the group key is
  appended to the group columns and every aggregate to its column.
\<close>

fun grouped_agg_funcs ::
  "'f float_ops \<Rightarrow> pyval list \<Rightarrow> string \<Rightarrow> nat \<Rightarrow> 'f func list \<Rightarrow> 'f aggval coldict
    \<Rightarrow> error + 'f aggval coldict" where
  "grouped_agg_funcs ops group_values col n [] result_data = Inr result_data"
| "grouped_agg_funcs ops group_values col n (func # fs) result_data =
     (case apply_aggregation ops group_values func of
        Inl e \<Rightarrow> Inl e
      | Inr agg_value \<Rightarrow>
          grouped_agg_funcs ops group_values col n fs
            (dd_append (result_key col n func) agg_value result_data))"

fun grouped_agg_cols ::
  "'f float_ops \<Rightarrow> pyval dataframe \<Rightarrow> nat list \<Rightarrow> (string \<times> 'f funcs) list \<Rightarrow> 'f aggval coldict
    \<Rightarrow> error + 'f aggval coldict" where
  "grouped_agg_cols ops df indices [] result_data = Inr result_data"
| "grouped_agg_cols ops df indices ((col, funcs) # rest) result_data =
     (if col \<notin> set (columns df)
      then Inl (KeyError (''Column '' @ [CHR 0x27] @ col @ [CHR 0x27] @ '' not found''))
      else
        let fl = funcs_list funcs;
            group_values = map (\<lambda>idx. data_of df col ! idx) indices
        in case grouped_agg_funcs ops group_values col (length fl) fl result_data of
             Inl e \<Rightarrow> Inl e
           | Inr result_data' \<Rightarrow> grouped_agg_cols ops df indices rest result_data')"

fun grouped_agg_groups ::
  "'f float_ops \<Rightarrow> pyval dataframe \<Rightarrow> string list \<Rightarrow> (string \<times> 'f funcs) list
    \<Rightarrow> (pyval list \<times> nat list) list \<Rightarrow> 'f aggval coldict \<Rightarrow> error + 'f aggval coldict" where
  "grouped_agg_groups ops df group_cols aggregations [] result_data = Inr result_data"
| "grouped_agg_groups ops df group_cols aggregations ((group_key, indices) # rest) result_data =
     (let r1 = fold (\<lambda>(i, col). dd_append col (Val (group_key ! i)))
                 (zip [0..<length group_cols] group_cols) result_data
      in case grouped_agg_cols ops df indices aggregations r1 of
           Inl e \<Rightarrow> Inl e
         | Inr r2 \<Rightarrow> grouped_agg_groups ops df group_cols aggregations rest r2)"

definition grouped_agg ::
  "'f float_ops \<Rightarrow> pyval grouped_dataframe \<Rightarrow> (string \<times> 'f funcs) list
    \<Rightarrow> error + 'f aggval dataframe" where
  "grouped_agg ops g aggregations =
     (case grouped_agg_groups ops (g_df g) (g_group_cols g) aggregations (g_groups g) [] of
        Inl e \<Rightarrow> Inl e
      | Inr result_data \<Rightarrow> DataFrame result_data)"

section \<open>Vocabulary of the statements\<close>

subsection \<open>Tokenizer\<close>

abbreviation DQ :: char where "DQ \<equiv> CHR 0x22"



subsection \<open>Rows of a table\<close>

text \<open>The cells of a table row by row, and the table that a list of rows fills column by column.\<close>

definition table_rows :: "'v dataframe \<Rightarrow> 'v list list" where
  "table_rows df = map (\<lambda>i. map (\<lambda>(col, vals). vals ! i) (df_data df)) [0..<df_length df]"

definition rows_of :: "'v dataframe \<Rightarrow> (string \<times> 'v) list list" where
  "rows_of df = map (row_at df) [0..<df_length df]"

definition append_row :: "string list \<Rightarrow> 'v list \<Rightarrow> 'v coldict \<Rightarrow> 'v coldict" where
  "append_row names cells rd = fold (\<lambda>(name, v). dd_append name v) (zip names cells) rd"

definition columns_of :: "string list \<Rightarrow> 'v list list \<Rightarrow> 'v coldict" where
  "columns_of names rows =
     (if rows = [] then [] else map (\<lambda>j. (names ! j, map (\<lambda>r. r ! j) rows)) [0..<length names])"

subsection \<open>The scanner before the blank-line rule\<close>

text \<open>
  The scanner in the words of the specification (section 4.1), without its blank-line rule: a
  line terminator in the unquoted state closes the current field and the current row, and the
  row is emitted whatever it holds. It is compared with \<open>parse_loop\<close>, which is the code.
\<close>

function spec_scan ::
  "string \<Rightarrow> string \<Rightarrow> string \<Rightarrow> bool \<Rightarrow> string list list \<Rightarrow> string list \<Rightarrow> string
    \<Rightarrow> error + scan_state" where
  "spec_scan delimiter quote_char [] in_quotes rows row field = Inr (rows, row, field, in_quotes)"
| "spec_scan delimiter quote_char (ch # rest) in_quotes rows row field =
     (if in_quotes then
        (if [ch] = quote_char then
           (if rest \<noteq> [] \<and> [hd rest] = quote_char
            then spec_scan delimiter quote_char (tl rest) True rows row (field @ quote_char)
            else spec_scan delimiter quote_char rest False rows row field)
         else spec_scan delimiter quote_char rest True rows row (field @ [ch]))
      else if [ch] = quote_char then
        (if field \<noteq> [] then Inl (ValueError ''Unexpected quote inside unquoted field'')
         else spec_scan delimiter quote_char rest True rows row field)
      else if [ch] = delimiter then
        spec_scan delimiter quote_char rest False rows (row @ [field]) []
      else if ch = CR \<or> ch = LF then
        spec_scan delimiter quote_char
          (if ch = CR \<and> rest \<noteq> [] \<and> hd rest = LF then tl rest else rest)
          False (rows @ [row @ [field]]) [] []
      else spec_scan delimiter quote_char rest False rows row (field @ [ch]))"
  by pat_completeness auto
termination
  by (relation "measure (\<lambda>(d, q, inp, iq, rows, row, fc). length inp)") auto

definition spec_rows :: "string \<Rightarrow> string \<Rightarrow> string \<Rightarrow> error + string list list" where
  "spec_rows inp delimiter quote_char =
     (case spec_scan delimiter quote_char inp False [] [] [] of
        Inl e \<Rightarrow> Inl e
      | Inr (rows, row, field, in_quotes) \<Rightarrow>
          if in_quotes then Inl (ValueError ''Unterminated quoted field at end of input'')
          else if field \<noteq> [] \<or> row \<noteq> [] then Inr (rows @ [row @ [field]])
          else Inr rows)"

text \<open>A blank row: exactly one field, and that field empty.\<close>

definition blank_row :: "string list \<Rightarrow> bool" where
  "blank_row r \<longleftrightarrow> r = ['''']"

text \<open>Two text lines, a blank line, a line of two empty fields (ended by CR LF) and a last line.\<close>

definition blank_lines_example :: string where
  "blank_lines_example = ''a,b'' @ [LF] @ [LF] @ '','' @ [CR, LF] @ ''c''"

subsection \<open>Order of first appearance\<close>

text \<open>The distinct elements of a list, each at the place of its first occurrence.\<close>

definition first_seen :: "'a list \<Rightarrow> 'a list" where
  "first_seen xs = rev (remdups (rev xs))"

text \<open>A header of two names, a record that is too short and a record that is too long.\<close>

definition ragged_example :: string where
  "ragged_example = ''h1,h2'' @ [LF] @ ''a'' @ [LF] @ ''b,c,d'' @ [LF]"

subsection \<open>Join\<close>

text \<open>
  Iterating a set yields each of its elements once: what the statements about \<open>join\<close> assume
  of the parameter \<open>set_order\<close>. \<open>dict_order\<close> is one such order.
\<close>

definition set_iteration :: "(string list \<Rightarrow> string list) \<Rightarrow> bool" where
  "set_iteration set_order \<longleftrightarrow>
     (\<forall>xs. distinct xs \<longrightarrow> distinct (set_order xs) \<and> set (set_order xs) = set xs)"

definition dict_order :: "string list \<Rightarrow> string list" where
  "dict_order xs = xs"

text \<open>
  The non-key columns of a table in the order of iteration, and the names of the output columns of
  a join in the order in which one output row appends to them: the keys, the left non-key columns
  and the right non-key columns, a name that both sides have taking the side's suffix.
\<close>

definition non_key_cols :: "(string list \<Rightarrow> string list) \<Rightarrow> 'v dataframe \<Rightarrow> string list \<Rightarrow> string list" where
  "non_key_cols set_order df on = set_order (filter (\<lambda>col. col \<notin> set on) (columns df))"

definition join_columns ::
  "(string list \<Rightarrow> string list) \<Rightarrow> 'v dataframe \<Rightarrow> 'v dataframe \<Rightarrow> string list
    \<Rightarrow> string \<times> string \<Rightarrow> string list" where
  "join_columns set_order self other on suffixes =
     (let left_cols = non_key_cols set_order self on;
          right_cols = non_key_cols set_order other on;
          overlap = set left_cols \<inter> set right_cols
      in on
         @ map (\<lambda>col. if col \<in> overlap then col @ fst suffixes else col) left_cols
         @ map (\<lambda>col. if col \<in> overlap then col @ snd suffixes else col) right_cols)"

text \<open>
  A join is well formed when the key columns exist on both sides and the names of the output
  columns are pairwise distinct (in particular no key is named twice, and no suffixed name meets
  another output column).
\<close>

definition join_ok ::
  "(string list \<Rightarrow> string list) \<Rightarrow> 'v dataframe \<Rightarrow> 'v dataframe \<Rightarrow> string list
    \<Rightarrow> string \<times> string \<Rightarrow> bool" where
  "join_ok set_order self other on suffixes \<longleftrightarrow>
     set_iteration set_order \<and> wf_df self \<and> wf_df other \<and>
     set on \<subseteq> set (columns self) \<and> set on \<subseteq> set (columns other) \<and>
     distinct (join_columns set_order self other on suffixes)"

text \<open>
  The keys of all rows of a table, the rows of \<open>other\<close> whose key equals that of row \<open>i\<close> of
  \<open>self\<close>, and the three kinds of output row.
\<close>

definition row_keys :: "'v dataframe \<Rightarrow> string list \<Rightarrow> 'v list list" where
  "row_keys df on = map (key_at df on) [0..<df_length df]"

definition matches :: "'v dataframe \<Rightarrow> 'v dataframe \<Rightarrow> string list \<Rightarrow> nat \<Rightarrow> nat list" where
  "matches self other on i =
     filter (\<lambda>j. key_at other on j = key_at self on i) [0..<df_length other]"

definition matched_row ::
  "(string list \<Rightarrow> string list) \<Rightarrow> pyval dataframe \<Rightarrow> pyval dataframe \<Rightarrow> string list
    \<Rightarrow> nat \<Rightarrow> nat \<Rightarrow> pyval list" where
  "matched_row set_order self other on i j =
     key_at self on i
     @ map (\<lambda>col. data_of self col ! i) (non_key_cols set_order self on)
     @ map (\<lambda>col. data_of other col ! j) (non_key_cols set_order other on)"

definition left_only_row ::
  "(string list \<Rightarrow> string list) \<Rightarrow> pyval dataframe \<Rightarrow> pyval dataframe \<Rightarrow> string list
    \<Rightarrow> nat \<Rightarrow> pyval list" where
  "left_only_row set_order self other on i =
     key_at self on i
     @ map (\<lambda>col. data_of self col ! i) (non_key_cols set_order self on)
     @ map (\<lambda>col. PNone) (non_key_cols set_order other on)"

definition right_only_row ::
  "(string list \<Rightarrow> string list) \<Rightarrow> pyval dataframe \<Rightarrow> pyval dataframe \<Rightarrow> string list
    \<Rightarrow> nat \<Rightarrow> pyval list" where
  "right_only_row set_order self other on j =
     key_at other on j
     @ map (\<lambda>col. PNone) (non_key_cols set_order self on)
     @ map (\<lambda>col. data_of other col ! j) (non_key_cols set_order other on)"

text \<open>The tables of the specification's example of a left join.\<close>

definition left_ex :: "pyval dataframe" where
  "left_ex = \<lparr>df_data = [(''id'', [PInt 1, PInt 2, PInt 3])], df_length = 3\<rparr>"

definition right_ex :: "pyval dataframe" where
  "right_ex =
     \<lparr>df_data = [(''id'', [PInt 2, PInt 3, PInt 4]), (''v'', [PStr ''x'', PStr ''y'', PStr ''z''])],
      df_length = 3\<rparr>"

subsection \<open>Filter\<close>

text \<open>
  The predicate \<^verbatim>\<open>lambda row: row['Medal'] == 'Gold'\<close> of find_gold_medalists.py, a table of
  medals without a gold medal and one with two.
\<close>

definition gold_medal :: "(string \<times> pyval) list \<Rightarrow> bool" where
  "gold_medal row \<longleftrightarrow> map_of row ''Medal'' = Some (PStr ''Gold'')"

definition no_gold_ex :: "pyval dataframe" where
  "no_gold_ex =
     \<lparr>df_data = [(''Name'', [PStr ''A'', PStr ''B'']), (''Medal'', [PStr ''Silver'', PStr ''NA''])],
      df_length = 2\<rparr>"

definition medals_ex :: "pyval dataframe" where
  "medals_ex =
     \<lparr>df_data = [(''Name'', [PStr ''A'', PStr ''B'', PStr ''C'']),
                (''Medal'', [PStr ''Gold'', PStr ''Silver'', PStr ''Gold''])],
      df_length = 3\<rparr>"

text \<open>The rows appended for the left row \<open>i\<close> by the block for inner and left joins.\<close>

definition rows_for_left ::
  "(string list \<Rightarrow> string list) \<Rightarrow> pyval dataframe \<Rightarrow> pyval dataframe \<Rightarrow> string list \<Rightarrow> string
    \<Rightarrow> nat \<Rightarrow> pyval list list" where
  "rows_for_left set_order self other on how i =
     (if matches self other on i \<noteq> []
      then map (matched_row set_order self other on i) (matches self other on i)
      else if how = ''left'' then [left_only_row set_order self other on i] else [])"

text \<open>The table that \<open>DataFrame\<close> builds from the rows of a join.\<close>

definition table_of :: "string list \<Rightarrow> 'v list list \<Rightarrow> 'v dataframe" where
  "table_of names rows =
     (if rows = [] then \<lparr>df_data = [], df_length = 0\<rparr>
      else \<lparr>df_data = columns_of names rows, df_length = length rows\<rparr>)"

text \<open>
  Two tables with the key columns \<open>c_x\<close> and \<open>c_y\<close> and a further column \<open>c\<close> on both sides:
  with the default suffixes the two columns \<open>c\<close> take the names of the two keys.
\<close>

definition clash_left :: "pyval dataframe" where
  "clash_left =
     \<lparr>df_data = [(''c_x'', [PInt 1]), (''c_y'', [PInt 2]), (''c'', [PInt 3])], df_length = 1\<rparr>"

definition clash_right :: "pyval dataframe" where
  "clash_right =
     \<lparr>df_data = [(''c_x'', [PInt 1]), (''c_y'', [PInt 2]), (''c'', [PInt 4])], df_length = 1\<rparr>"

text \<open>
  The pairs of a left and a right row with equal keys, in the order of the inner part; the left
  rows without a match and the right rows without a match.
\<close>

definition inner_pairs :: "'v dataframe \<Rightarrow> 'v dataframe \<Rightarrow> string list \<Rightarrow> (nat \<times> nat) list" where
  "inner_pairs self other on =
     concat (map (\<lambda>i. map (Pair i) (matches self other on i)) [0..<df_length self])"

definition unmatched_left :: "'v dataframe \<Rightarrow> 'v dataframe \<Rightarrow> string list \<Rightarrow> nat list" where
  "unmatched_left self other on =
     filter (\<lambda>i. matches self other on i = []) [0..<df_length self]"

definition unmatched_right :: "'v dataframe \<Rightarrow> 'v dataframe \<Rightarrow> string list \<Rightarrow> nat list" where
  "unmatched_right self other on =
     filter (\<lambda>j. matches other self on j = []) [0..<df_length other]"

text \<open>The left table of the name clash with a second row, which has no match.\<close>

definition clash_left2 :: "pyval dataframe" where
  "clash_left2 =
     \<lparr>df_data = [(''c_x'', [PInt 1, PInt 5]), (''c_y'', [PInt 2, PInt 6]), (''c'', [PInt 3, PInt 7])],
      df_length = 2\<rparr>"

subsection \<open>Grouping and aggregation\<close>

text \<open>
  An instance of the float operations for the examples: the float type with a single value, so
  that every float result is the same value and no operation raises.
\<close>

definition opaque_floats :: "unit float_ops" where
  "opaque_floats =
     \<lparr>true_div = (\<lambda>s n. Inr ()), np_std = (\<lambda>vals. Inr ()), np_var = (\<lambda>vals. Inr ())\<rparr>"

text \<open>The table of the specification's grouping example, and its groups by \<open>NOC\<close>.\<close>

definition noc_ex :: "pyval dataframe" where
  "noc_ex =
     \<lparr>df_data = [(''NOC'', [PStr ''A'', PStr ''A'', PStr ''B'']),
                (''Medal'', [PStr ''Gold'', PStr ''Silver'', PStr ''Gold''])],
      df_length = 3\<rparr>"

definition noc_groups :: "pyval grouped_dataframe" where
  "noc_groups =
     \<lparr>g_df = noc_ex, g_group_cols = [''NOC''],
      g_groups = [([PStr ''A''], [0, 1]), ([PStr ''B''], [2])]\<rparr>"

text \<open>The output row of a group for a count: the group key, then the number of its rows.\<close>

definition count_row :: "pyval list \<Rightarrow> nat \<Rightarrow> 'f aggval list" where
  "count_row key n = map Val key @ [Val (PInt (int n))]"

subsection \<open>Aggregating a column that holds a value that is not a number\<close>




text \<open>The values of column \<open>X\<close> in the group of row \<open>i\<close>, in the order of the rows.\<close>

definition group_values :: "pyval dataframe \<Rightarrow> string list \<Rightarrow> string \<Rightarrow> nat \<Rightarrow> pyval list" where
  "group_values df group_cols X i =
     map (\<lambda>j. data_of df X ! j)
       (filter (\<lambda>j. key_at df group_cols j = key_at df group_cols i) [0..<df_length df])"





section \<open>Dictionaries of columns filled row by row\<close>

lemma dd_append_fresh: "k \<notin> fst ` set d \<Longrightarrow> dd_append k v d = d @ [(k, [v])]"
  by (induction d) auto

lemma dd_append_mid:
  "k \<notin> fst ` set pre \<Longrightarrow> dd_append k v (pre @ (k, vs) # post) = pre @ (k, vs @ [v]) # post"
  by (induction pre) auto

lemma fold_dd_append_fresh:
  "distinct names \<Longrightarrow> length cells = length names \<Longrightarrow> set names \<inter> fst ` set d = {}
   \<Longrightarrow> fold (\<lambda>(name, v). dd_append name v) (zip names cells) d
       = d @ map (\<lambda>(name, v). (name, [v])) (zip names cells)"
proof (induction names arbitrary: cells d)
  case Nil
  then show ?case by simp
next
  case (Cons n names)
  then obtain c cs where cells: "cells = c # cs" by (cases cells) auto
  from Cons.prems have fresh: "n \<notin> fst ` set d" by auto
  have "set names \<inter> fst ` set (d @ [(n, [c])]) = {}"
    using Cons.prems by auto
  with Cons.IH[of cs "d @ [(n, [c])]"] Cons.prems cells fresh show ?case
    by (simp add: dd_append_fresh)
qed

lemma fold_dd_append_existing:
  "distinct names \<Longrightarrow> length cells = length names \<Longrightarrow> length cols = length names
   \<Longrightarrow> set names \<inter> fst ` set pre = {}
   \<Longrightarrow> fold (\<lambda>(name, v). dd_append name v) (zip names cells) (pre @ zip names cols)
       = pre @ zip names (map (\<lambda>(col, v). col @ [v]) (zip cols cells))"
proof (induction names arbitrary: cells cols pre)
  case Nil
  then show ?case by simp
next
  case (Cons n names)
  then obtain c cs where cells: "cells = c # cs" by (cases cells) auto
  from Cons.prems obtain col cols' where cols: "cols = col # cols'" by (cases cols) auto
  from Cons.prems have fresh: "n \<notin> fst ` set pre" by auto
  have disj: "set names \<inter> fst ` set (pre @ [(n, col @ [c])]) = {}"
    using Cons.prems by auto
  have "fold (\<lambda>(name, v). dd_append name v) (zip names cs) ((pre @ [(n, col @ [c])]) @ zip names cols')
        = (pre @ [(n, col @ [c])]) @ zip names (map (\<lambda>(col, v). col @ [v]) (zip cols' cs))"
    using Cons.prems cells cols disj by (intro Cons.IH) auto
  then show ?case using cells cols fresh by (simp add: dd_append_mid)
qed

lemma columns_of_snoc:
  assumes "distinct names" and "length cells = length names"
  shows "append_row names cells (columns_of names rows) = columns_of names (rows @ [cells])"
proof (cases "rows = []")
  case True
  have "map (\<lambda>(name, v). (name, [v])) (zip names cells) = map (\<lambda>j. (names ! j, [cells ! j])) [0..<length names]"
    using assms by (intro nth_equalityI) auto
  with True show ?thesis
    using fold_dd_append_fresh[of names cells "[]"] assms
    by (simp add: append_row_def columns_of_def)
next
  case False
  let ?cols = "map (\<lambda>j. map (\<lambda>r. r ! j) rows) [0..<length names]"
  have eq1: "columns_of names rows = zip names ?cols"
    using False by (auto simp: columns_of_def intro!: nth_equalityI)
  have eq2: "columns_of names (rows @ [cells]) = zip names (map (\<lambda>(col, v). col @ [v]) (zip ?cols cells))"
    using assms by (auto simp: columns_of_def intro!: nth_equalityI)
  show ?thesis
    using fold_dd_append_existing[of names cells ?cols "[]"] assms
    by (simp add: append_row_def eq1 eq2)
qed

lemma fold_append_row:
  assumes "distinct names" and "\<forall>x \<in> set xs. length (h x) = length names"
  shows "fold (\<lambda>x. append_row names (h x)) xs (columns_of names rows) = columns_of names (rows @ map h xs)"
  using assms(2)
proof (induction xs arbitrary: rows)
  case Nil
  then show ?case by simp
next
  case (Cons x xs)
  then show ?case using assms(1) by (simp add: columns_of_snoc)
qed

lemma DataFrame_columns_of:
  "DataFrame (columns_of names rows) =
     Inr (if rows = [] \<or> names = [] then \<lparr>df_data = [], df_length = 0\<rparr>
          else \<lparr>df_data = columns_of names rows, df_length = length rows\<rparr>)"
proof (cases "rows = [] \<or> names = []")
  case True
  then show ?thesis by (auto simp: DataFrame_def columns_of_def)
next
  case False
  then have ne: "columns_of names rows \<noteq> []" by (auto simp: columns_of_def)
  have lens: "map (\<lambda>(col, vals). length vals) (columns_of names rows) = replicate (length names) (length rows)"
    using False by (auto simp: columns_of_def intro!: nth_equalityI)
  have "card (set (replicate (length names) (length rows))) \<le> 1"
    by (simp add: set_replicate_conv_if)
  moreover have "hd (replicate (length names) (length rows)) = length rows"
    using False by (cases names) auto
  ultimately show ?thesis using False ne lens
    by (simp add: DataFrame_def Let_def)
qed

lemma table_rows_columns_of:
  assumes "\<forall>r \<in> set rows. length r = length names"
  shows "table_rows \<lparr>df_data = columns_of names rows, df_length = length rows\<rparr> = rows"
proof (cases "rows = []")
  case True
  then show ?thesis by (simp add: table_rows_def)
next
  case False
  then show ?thesis using assms
    by (auto simp: table_rows_def columns_of_def intro!: nth_equalityI)
qed

subsection \<open>Order of first appearance\<close>

lemma first_seen_Nil [simp]: "first_seen [] = []"
  by (simp add: first_seen_def)

lemma first_seen_snoc:
  "first_seen (xs @ [x]) = (if x \<in> set xs then first_seen xs else first_seen xs @ [x])"
  by (simp add: first_seen_def)

lemma set_first_seen [simp]: "set (first_seen xs) = set xs"
  by (simp add: first_seen_def)

lemma distinct_first_seen [simp]: "distinct (first_seen xs)"
  by (simp add: first_seen_def)

lemma first_seen_distinct: "distinct xs \<Longrightarrow> first_seen xs = xs"
  by (simp add: first_seen_def distinct_remdups_id)

section \<open>The quoting rule of the tokenizer\<close>







section \<open>The blank-line rule of the tokenizer\<close>

lemma keep_condition:
  "((\<exists>cell \<in> set (row @ [field]). cell \<noteq> '''') \<or> length (row @ [field]) > 1)
     \<longleftrightarrow> \<not> blank_row (row @ [field])"
  by (cases row) (auto simp: blank_row_def)

lemma parse_loop_refines:
  "parse_loop delimiter quote_char inp in_quotes (filter (\<lambda>r. \<not> blank_row r) rows) row field
     = (case spec_scan delimiter quote_char inp in_quotes rows row field of
          Inl e \<Rightarrow> Inl e
        | Inr (rows', st) \<Rightarrow> Inr (filter (\<lambda>r. \<not> blank_row r) rows', st))"
proof (induction delimiter quote_char inp in_quotes rows row field rule: spec_scan.induct)
  case (1 delimiter quote_char in_quotes rows row field)
  then show ?case by simp
next
  case (2 delimiter quote_char ch rest in_quotes rows row field)
  show ?case
  proof (cases in_quotes)
    case True
    then show ?thesis using "2.IH"(1,2,3) by simp
  next
    case nq: False
    show ?thesis
    proof (cases "[ch] = quote_char")
      case True
      then show ?thesis using nq "2.IH"(4) by simp
    next
      case nquote: False
      show ?thesis
      proof (cases "[ch] = delimiter")
        case True
        then show ?thesis using nq nquote "2.IH"(5) by simp
      next
        case ndelim: False
        show ?thesis
        proof (cases "ch = CR \<or> ch = LF")
          case True
          let ?R = "if ch = CR \<and> rest \<noteq> [] \<and> hd rest = LF then tl rest else rest"
          let ?keep = "\<lambda>r. \<not> blank_row r"
          have code: "parse_loop delimiter quote_char (ch # rest) in_quotes (filter ?keep rows) row field
                = parse_loop delimiter quote_char ?R False
                    (if \<not> blank_row (row @ [field]) then filter ?keep rows @ [row @ [field]]
                     else filter ?keep rows) [] []"
            by (simp only: parse_loop.simps nq nquote ndelim True if_False if_True Let_def
                  keep_condition)
          have spec: "spec_scan delimiter quote_char (ch # rest) in_quotes rows row field
                = spec_scan delimiter quote_char ?R False (rows @ [row @ [field]]) [] []"
            by (simp only: spec_scan.simps nq nquote ndelim True if_False if_True)
          have flt: "(if \<not> blank_row (row @ [field]) then filter ?keep rows @ [row @ [field]]
                     else filter ?keep rows) = filter ?keep (rows @ [row @ [field]])"
            by simp
          show ?thesis
            unfolding code spec flt using "2.IH"(6)[OF nq nquote ndelim True] .
        next
          case False
          then show ?thesis using nq nquote ndelim "2.IH"(7) by simp
        qed
      qed
    qed
  qed
qed

lemma parse_csv_refines:
  "parse_csv inp delimiter quote_char =
     (case spec_rows inp delimiter quote_char of
        Inl e \<Rightarrow> Inl e
      | Inr all_rows \<Rightarrow> Inr (filter (\<lambda>r. \<not> blank_row r) all_rows))"
proof -
  have start: "parse_loop delimiter quote_char inp False [] [] []
     = (case spec_scan delimiter quote_char inp False [] [] [] of
          Inl e \<Rightarrow> Inl e
        | Inr (rows', st) \<Rightarrow> Inr (filter (\<lambda>r. \<not> blank_row r) rows', st))"
    using parse_loop_refines[of delimiter quote_char inp False "[]" "[]" "[]"] by simp
  have last_kept: "\<not> blank_row (row @ [field])" if "field \<noteq> [] \<or> row \<noteq> []"
    for row :: "string list" and field
    using that by (cases row) (auto simp: blank_row_def)
  show ?thesis
    unfolding parse_csv_def spec_rows_def start
    by (auto split: sum.splits simp: last_kept)
qed

text \<open>
  Claim C6. For every input text the tokenizer returns the rows that the scanner closes, in
  their order, without those that consist of exactly one empty field: such a row (a blank line)
  is never part of the result, and every row with more than one field is, also when all its
  fields are empty. The two scanners fail on the same texts.
\<close>

theorem blank_rows_dropped_others_kept:
  "(\<forall>e. spec_rows inp delimiter quote_char = Inl e \<longrightarrow> parse_csv inp delimiter quote_char = Inl e)
   \<and> (\<forall>all_rows. spec_rows inp delimiter quote_char = Inr all_rows \<longrightarrow>
        (\<exists>rows. parse_csv inp delimiter quote_char = Inr rows
           \<and> rows = filter (\<lambda>r. \<not> blank_row r) all_rows
           \<and> [''''] \<notin> set rows
           \<and> (\<forall>r \<in> set all_rows. 1 < length r \<longrightarrow> r \<in> set rows)))"
  by (auto simp: parse_csv_refines blank_row_def)

theorem blank_rows_dropped_others_kept_witness:
  "spec_rows blank_lines_example '','' [DQ] = Inr [[''a'', ''b''], [''''], ['''', ''''], [''c'']]
   \<and> parse_csv blank_lines_example '','' [DQ] = Inr [[''a'', ''b''], ['''', ''''], [''c'']]"
proof -
  have s: "spec_rows blank_lines_example '','' [DQ] = Inr [[''a'', ''b''], [''''], ['''', ''''], [''c'']]"
    by (simp add: spec_rows_def blank_lines_example_def)
  from blank_rows_dropped_others_kept[of blank_lines_example "'',''" "[DQ]"] s
  obtain rows where "parse_csv blank_lines_example '','' [DQ] = Inr rows"
    and "rows = filter (\<lambda>r. \<not> blank_row r) [[''a'', ''b''], [''''], ['''', ''''], [''c'']]"
    by blast
  then have "parse_csv blank_lines_example '','' [DQ] = Inr [[''a'', ''b''], ['''', ''''], [''c'']]"
    by (simp add: blank_row_def)
  with s show ?thesis by (intro conjI)
qed

section \<open>Header handling of read_csv\<close>

lemma keys_dict_set:
  "map fst (dict_set k v d) = (if k \<in> fst ` set d then map fst d else map fst d @ [k])"
  by (induction d) (force simp: image_iff)+

lemma map_of_dict_set: "map_of (dict_set k v d) = (map_of d)(k \<mapsto> v)"
  by (induction d) (auto simp: fun_eq_iff)

lemma dict_set_fresh: "k \<notin> fst ` set d \<Longrightarrow> dict_set k v d = d @ [(k, v)]"
  by (induction d) auto

lemma keys_fold_dict_set:
  "map fst (fold (\<lambda>i d. dict_set (h i) (p i) d) idxs []) = first_seen (map h idxs)"
proof (induction idxs rule: rev_induct)
  case Nil
  then show ?case by simp
next
  case (snoc i idxs)
  have "fst ` set (fold (\<lambda>i d. dict_set (h i) (p i) d) idxs []) = set (map h idxs)"
    using snoc.IH set_first_seen[of "map h idxs"] by (metis set_map)
  then show ?case using snoc.IH
    by (simp add: keys_dict_set first_seen_snoc)
qed

lemma map_of_fold_dict_set_last:
  "map_of (fold (\<lambda>i d. dict_set (h i) (p i) d) (idxs @ [i] @ later) []) (h i) = Some (p i)"
  if "\<forall>i' \<in> set later. h i' \<noteq> h i"
  using that
proof (induction later rule: rev_induct)
  case Nil
  then show ?case by (simp add: map_of_dict_set)
next
  case (snoc x later)
  then have "map_of (fold (\<lambda>i d. dict_set (h i) (p i) d) (idxs @ [i] @ later) []) (h i) = Some (p i)"
    by simp
  moreover have "h x \<noteq> h i" using snoc.prems by simp
  ultimately show ?case by (simp add: map_of_dict_set)
qed

lemma fold_dict_set_distinct:
  "distinct (map h idxs) \<Longrightarrow>
   fold (\<lambda>i d. dict_set (h i) (p i) d) idxs [] = map (\<lambda>i. (h i, p i)) idxs"
proof (induction idxs rule: rev_induct)
  case Nil
  then show ?case by simp
next
  case (snoc i idxs)
  then have "h i \<notin> fst ` set (map (\<lambda>i. (h i, p i)) idxs)"
    by (auto simp: image_iff)
  with snoc show ?case by (simp add: dict_set_fresh)
qed

lemma length_pad_row [simp]: "length (pad_row header r) = length header"
  by (simp add: pad_row_def)

lemma nth_pad_row:
  "i < length header \<Longrightarrow> pad_row header r ! i = (if i < length r then r ! i else '''')"
  by (simp add: pad_row_def nth_append)

lemma row_dict_lookup:
  assumes "i < length header"
      and "\<forall>i'. i < i' \<and> i' < length header \<longrightarrow> header ! i' \<noteq> header ! i"
  shows "map_of (fold (\<lambda>i d. dict_set (header ! i) (p i) d) [0..<length header] []) (header ! i)
           = Some (p i)"
proof -
  have split: "[0..<length header] = [0..<i] @ [i] @ [Suc i..<length header]"
  proof -
    have "[0..<length header] = [0..<i] @ [i..<length header]"
      using upt_add_eq_append[of 0 i "length header - i"] assms(1) by simp
    then show ?thesis using assms(1) by (simp add: upt_conv_Cons)
  qed
  have "\<forall>i' \<in> set [Suc i..<length header]. header ! i' \<noteq> header ! i"
    using assms(2) by auto
  from map_of_fold_dict_set_last[OF this, of p "[0..<i]"] show ?thesis
    unfolding split .
qed

lemma row_dict_distinct:
  assumes "distinct header" and "length padded = length header"
  shows "fold (\<lambda>i d. dict_set (header ! i) (padded ! i) d) [0..<length header] []
           = zip header padded"
proof -
  have "map (\<lambda>i. header ! i) [0..<length header] = header"
    by (simp add: map_nth)
  with assms(1) have "distinct (map (\<lambda>i. header ! i) [0..<length header])" by simp
  from fold_dict_set_distinct[OF this]
  have "fold (\<lambda>i d. dict_set (header ! i) (padded ! i) d) [0..<length header] []
          = map (\<lambda>i. (header ! i, padded ! i)) [0..<length header]" .
  also have "\<dots> = zip header padded"
    using assms(2) by (intro nth_equalityI) auto
  finally show ?thesis .
qed

text \<open>
  Claim C9. When the text parses into a first row \<open>header\<close> and further rows \<open>body\<close>, reading it
  with a header raises no error and returns one dictionary per further row, in order. The keys of
  each dictionary are the header names in their order of first appearance. The row is padded with
  empty strings or truncated to the length of the header: the entry for the name at position
  \<open>i\<close> is the row's field \<open>i\<close> when the row has one and the empty string otherwise (for a name
  that the header repeats, the entry of its last position). With distinct header names the
  dictionary pairs the header with the padded row, position by position.
\<close>

theorem header_rows_padded_or_truncated:
  "parse_csv data delimiter quote_char = Inr (header # body) \<Longrightarrow>
   \<exists>dicts. read_csv data delimiter quote_char True = Inr (Dicts dicts)
     \<and> length dicts = length body
     \<and> (\<forall>j < length body.
          map fst (dicts ! j) = first_seen header
          \<and> length (pad_row header (body ! j)) = length header
          \<and> (\<forall>i < length header.
                pad_row header (body ! j) ! i
                  = (if i < length (body ! j) then body ! j ! i else ''''))
          \<and> (\<forall>i < length header.
                (\<forall>i'. i < i' \<and> i' < length header \<longrightarrow> header ! i' \<noteq> header ! i) \<longrightarrow>
                map_of (dicts ! j) (header ! i)
                  = Some (if i < length (body ! j) then body ! j ! i else ''''))
          \<and> (distinct header \<longrightarrow> dicts ! j = zip header (pad_row header (body ! j))))"
proof -
  assume parsed: "parse_csv data delimiter quote_char = Inr (header # body)"
  let ?dict = "\<lambda>r. fold (\<lambda>i d. dict_set (header ! i) (pad_row header r ! i) d)
                      [0..<length header] []"
  have res: "read_csv data delimiter quote_char True = Inr (Dicts (map ?dict body))"
    by (simp add: read_csv_def parsed)
  have keys: "map fst (?dict r) = first_seen header" for r
    using keys_fold_dict_set[of "\<lambda>i. header ! i" "\<lambda>i. pad_row header r ! i" "[0..<length header]"]
    by (simp add: map_nth)
  have look: "map_of (?dict r) (header ! i) = Some (if i < length r then r ! i else '''')"
    if "i < length header"
       "\<forall>i'. i < i' \<and> i' < length header \<longrightarrow> header ! i' \<noteq> header ! i" for r i
    using row_dict_lookup[OF that, of "\<lambda>i. pad_row header r ! i"] that(1)
    by (simp add: nth_pad_row)
  have dist: "?dict r = zip header (pad_row header r)" if "distinct header" for r
    using row_dict_distinct[OF that, of "pad_row header r"] by simp
  show ?thesis
    apply (rule exI[of _ "map ?dict body"])
    apply (intro conjI allI impI)
          apply (rule res)
         apply simp
        apply (simp add: keys)
       apply simp
      apply (simp add: nth_pad_row)
     apply (simp add: look)
    apply (simp add: dist)
    done
qed

theorem header_rows_padded_or_truncated_witness:
  "parse_csv ragged_example '','' [DQ] = Inr ([''h1'', ''h2''] # [[''a''], [''b'', ''c'', ''d'']])
   \<and> (\<exists>dicts. read_csv ragged_example '','' [DQ] True = Inr (Dicts dicts)
         \<and> length dicts = 2
         \<and> dicts ! 0 = [(''h1'', ''a''), (''h2'', '''')]
         \<and> dicts ! 1 = [(''h1'', ''b''), (''h2'', ''c'')])"
proof -
  have p: "parse_csv ragged_example '','' [DQ]
             = Inr ([''h1'', ''h2''] # [[''a''], [''b'', ''c'', ''d'']])"
    by (simp add: parse_csv_def ragged_example_def)
  have d: "distinct [''h1'', ''h2'']" by simp
  from header_rows_padded_or_truncated[OF p]
  obtain dicts where r: "read_csv ragged_example '','' [DQ] True = Inr (Dicts dicts)"
    and l: "length dicts = length [[''a''], [''b'', ''c'', ''d'']]"
    and a: "\<forall>j < length [[''a''], [''b'', ''c'', ''d'']].
              distinct [''h1'', ''h2''] \<longrightarrow>
              dicts ! j = zip [''h1'', ''h2''] (pad_row [''h1'', ''h2''] ([[''a''], [''b'', ''c'', ''d'']] ! j))"
    by blast
  from a[rule_format, of 0] d
  have "dicts ! 0 = zip [''h1'', ''h2''] (pad_row [''h1'', ''h2''] [''a''])"
    by simp
  then have d0: "dicts ! 0 = [(''h1'', ''a''), (''h2'', '''')]"
    by (simp add: pad_row_def)
  from a[rule_format, of 1] d
  have "dicts ! 1 = zip [''h1'', ''h2''] (pad_row [''h1'', ''h2''] [''b'', ''c'', ''d''])"
    by simp
  then have d1: "dicts ! 1 = [(''h1'', ''b''), (''h2'', ''c'')]"
    by (simp add: pad_row_def)
  from l have l2: "length dicts = 2" by simp
  from r l2 d0 d1
  have "\<exists>dicts. read_csv ragged_example '','' [DQ] True = Inr (Dicts dicts)
         \<and> length dicts = 2
         \<and> dicts ! 0 = [(''h1'', ''a''), (''h2'', '''')]
         \<and> dicts ! 1 = [(''h1'', ''b''), (''h2'', ''c'')]"
    by (intro exI[of _ dicts] conjI)
  with p show ?thesis by (intro conjI)
qed

section \<open>The join engine\<close>

subsection \<open>The hash index\<close>

lemma index_get_dd_append:
  "index_get (dd_append k v d) k' = (if k' = k then index_get d k @ [v] else index_get d k')"
  by (induction d) (auto simp: index_get_def)

lemma index_get_fold:
  "index_get (fold (\<lambda>i index. dd_append (f i) i index) idxs d) k
     = index_get d k @ filter (\<lambda>i. f i = k) idxs"
  by (induction idxs arbitrary: d) (auto simp: index_get_dd_append)

lemma index_get_build_index:
  "index_get (build_index df on) k = filter (\<lambda>j. key_at df on j = k) [0..<df_length df]"
  unfolding build_index_def index_get_fold by (simp add: index_get_def)

lemma index_get_matches:
  "index_get (build_index other on) (key_at self on i) = matches self other on i"
  by (simp add: index_get_build_index matches_def)

subsection \<open>One output row\<close>

lemma fold_zip_map:
  "fold (\<lambda>(name, v). dd_append name v) (zip (map f xs) (map g xs)) rd
     = fold (\<lambda>x. dd_append (f x) (g x)) xs rd"
  by (induction xs arbitrary: rd) auto

lemma add_row_append_row:
  "add_row on left_cols right_cols overlap suffixes kv lv rv rd
     = append_row
         (on @ map (\<lambda>col. if col \<in> overlap then col @ fst suffixes else col) left_cols
             @ map (\<lambda>col. if col \<in> overlap then col @ snd suffixes else col) right_cols)
         (map kv on @ map lv left_cols @ map rv right_cols) rd"
proof -
  have k: "fold (\<lambda>col. dd_append col (kv col)) on rd
             = fold (\<lambda>(name, v). dd_append name v) (zip on (map kv on)) rd" for rd
    using fold_zip_map[of "\<lambda>x. x" on kv rd] by simp
  show ?thesis
    by (simp add: add_row_def append_row_def Let_def k fold_zip_map)
qed

lemma fold_rows:
  assumes "\<And>x rows. x \<in> set xs \<Longrightarrow> F x (columns_of names rows) = columns_of names (rows @ g x)"
  shows "fold F xs (columns_of names rows) = columns_of names (rows @ concat (map g xs))"
  using assms
proof (induction xs arbitrary: rows)
  case Nil
  then show ?case by simp
next
  case (Cons x xs)
  have "fold F xs (columns_of names (rows @ g x))
          = columns_of names ((rows @ g x) @ concat (map g xs))"
    by (rule Cons.IH) (simp add: Cons.prems)
  then show ?case by (simp add: Cons.prems)
qed

lemma validate_on_ok:
  "set on \<subseteq> set (columns self) \<Longrightarrow> set on \<subseteq> set (columns other)
   \<Longrightarrow> validate_on self other on = None"
  by (induction on) auto

text \<open>
  Claim C10. For tables \<open>self\<close> and \<open>other\<close> and key columns that both have, a join whose
  \<open>how\<close> is none of inner, left, right and outer raises no error and returns the empty table,
  with no column and no row.
\<close>

theorem join_unknown_how_empty:
  "set (as_list on) \<subseteq> set (columns self) \<Longrightarrow> set (as_list on) \<subseteq> set (columns other)
   \<Longrightarrow> how \<noteq> ''inner'' \<Longrightarrow> how \<noteq> ''left'' \<Longrightarrow> how \<noteq> ''right'' \<Longrightarrow> how \<noteq> ''outer''
   \<Longrightarrow> join set_order self other on how suffixes = Inr \<lparr>df_data = [], df_length = 0\<rparr>"
  by (simp add: join_def validate_on_ok DataFrame_def)

theorem join_unknown_how_empty_witness:
  "join dict_order left_ex right_ex (Str ''id'') ''cross'' (''_x'', ''_y'')
     = Inr \<lparr>df_data = [], df_length = 0\<rparr>"
proof -
  have a: "set (as_list (Str ''id'')) \<subseteq> set (columns left_ex)"
    and b: "set (as_list (Str ''id'')) \<subseteq> set (columns right_ex)"
    by (simp_all add: columns_def left_ex_def right_ex_def)
  have c: "''cross'' \<noteq> ''inner''" "''cross'' \<noteq> ''left''" "''cross'' \<noteq> ''right''"
    "''cross'' \<noteq> ''outer''"
    by simp_all
  from join_unknown_how_empty[OF a b c, of dict_order "(''_x'', ''_y'')"]
  show ?thesis .
qed

section \<open>Filter\<close>

lemma columns_columns_of:
  "rows \<noteq> [] \<Longrightarrow> map fst (columns_of names rows) = names"
  by (auto simp: columns_of_def intro!: nth_equalityI)

lemma fold_cells_append_row:
  "fold (\<lambda>(col, vals). dd_append col (vals ! i)) d rd
     = append_row (map fst d) (map (\<lambda>(col, vals). vals ! i) d) rd"
  unfolding append_row_def by (induction d arbitrary: rd) auto

lemma filter_df_rows:
  assumes "distinct (map fst (df_data df))"
  shows "fold (\<lambda>i filtered_data.
                if condition (row_at df i)
                then fold (\<lambda>(col, vals). dd_append col (vals ! i)) (df_data df) filtered_data
                else filtered_data)
             idxs (columns_of (map fst (df_data df)) rows)
         = columns_of (map fst (df_data df))
             (rows @ map (\<lambda>i. map (\<lambda>(col, vals). vals ! i) (df_data df))
                       (filter (\<lambda>i. condition (row_at df i)) idxs))"
proof -
  let ?names = "map fst (df_data df)"
  let ?cells = "\<lambda>i. map (\<lambda>(col, vals). vals ! i) (df_data df)"
  let ?g = "\<lambda>i. if condition (row_at df i) then [?cells i] else []"
  have step: "(if condition (row_at df i)
               then fold (\<lambda>(col, vals). dd_append col (vals ! i)) (df_data df)
                      (columns_of ?names rs)
               else columns_of ?names rs) = columns_of ?names (rs @ ?g i)" for i rs
    using columns_of_snoc[OF assms, of "?cells i" rs]
    by (simp add: fold_cells_append_row)
  have "concat (map ?g idxs) = map ?cells (filter (\<lambda>i. condition (row_at df i)) idxs)"
    by (induction idxs) auto
  with fold_rows[of idxs _ ?names ?g rows, OF step] show ?thesis by simp
qed

lemma filter_df_result:
  fixes df :: "'v dataframe" and condition :: "(string \<times> 'v) list \<Rightarrow> bool"
  assumes "wf_df df"
  defines "kept \<equiv> filter (\<lambda>i. condition (row_at df i)) [0..<df_length df]"
  shows "filter_df df condition =
           Inr (if kept = [] then \<lparr>df_data = [], df_length = 0\<rparr>
                else \<lparr>df_data = columns_of (map fst (df_data df))
                                  (map (\<lambda>i. map (\<lambda>(col, vals). vals ! i) (df_data df)) kept),
                      df_length = length kept\<rparr>)"
proof -
  have d: "distinct (map fst (df_data df))" using assms(1) by (simp add: wf_df_def)
  have empty: "kept = []" if "map fst (df_data df) = []"
    using that assms(1) by (simp add: kept_def wf_df_def)
  have start: "([] :: 'a coldict) = columns_of (map fst (df_data df)) []"
    by (simp add: columns_of_def)
  have "filter_df df condition
          = DataFrame (columns_of (map fst (df_data df))
              (map (\<lambda>i. map (\<lambda>(col, vals). vals ! i) (df_data df)) kept))"
    unfolding filter_df_def
    by (subst start, subst filter_df_rows[OF d]) (simp add: kept_def)
  then show ?thesis using empty by (auto simp: DataFrame_columns_of)
qed

lemma rows_of_filter:
  "filter P (rows_of df) = map (row_at df) (filter (\<lambda>i. P (row_at df i)) [0..<df_length df])"
  by (simp add: rows_of_def filter_map comp_def)

lemma row_at_columns_of:
  assumes "i < length idxs"
      and "df_data df' = columns_of (map fst (df_data df))
                           (map (\<lambda>i. map (\<lambda>(col, vals). vals ! i) (df_data df)) idxs)"
  shows "row_at df' i = row_at df (idxs ! i)"
proof -
  have ne: "map (\<lambda>i. map (\<lambda>(col, vals). vals ! i) (df_data df)) idxs \<noteq> []"
    using assms(1) by auto
  show ?thesis
    using assms(1) unfolding row_at_def assms(2)
    by (auto simp: columns_of_def ne case_prod_beta intro!: nth_equalityI)
qed

text \<open>
  What \<open>filter\<close> computes: it raises no error, and the rows of its result are the rows of the
  table that satisfy the predicate, in their relative order. The columns of the result are those
  of the table only if some row is kept.
\<close>

lemma filter_df_kept_rows:
  "wf_df df \<Longrightarrow>
   \<exists>df'. filter_df df P = Inr df'
     \<and> df_length df' = length (filter P (rows_of df))
     \<and> rows_of df' = filter P (rows_of df)
     \<and> columns df' = (if \<exists>row \<in> set (rows_of df). P row then columns df else [])"
proof -
  assume wf: "wf_df df"
  define kept where "kept = filter (\<lambda>i. P (row_at df i)) [0..<df_length df]"
  let ?cells = "\<lambda>i. map (\<lambda>(col, vals). vals ! i) (df_data df)"
  let ?df' = "if kept = [] then \<lparr>df_data = [], df_length = 0\<rparr>
              else \<lparr>df_data = columns_of (map fst (df_data df)) (map ?cells kept),
                    df_length = length kept\<rparr>"
  have res: "filter_df df P = Inr ?df'"
    using filter_df_result[OF wf, of P] by (simp add: kept_def)
  have flt: "filter P (rows_of df) = map (row_at df) kept"
    by (simp add: rows_of_filter kept_def)
  have len: "df_length ?df' = length (filter P (rows_of df))"
    by (simp add: flt)
  have some: "(\<exists>row \<in> set (rows_of df). P row) \<longleftrightarrow> kept \<noteq> []"
    using flt by (metis filter_False filter_empty_conv map_is_Nil_conv)
  have cols: "columns ?df' = (if \<exists>row \<in> set (rows_of df). P row then columns df else [])"
    unfolding some by (simp add: columns_def columns_columns_of)
  have rows_eq: "row_at \<lparr>df_data = columns_of (map fst (df_data df)) (map ?cells kept),
                  df_length = length kept\<rparr> i = row_at df (kept ! i)" if "i < length kept" for i
    by (rule row_at_columns_of[OF that]) simp
  have rows: "rows_of ?df' = filter P (rows_of df)"
  proof (cases "kept = []")
    case True
    then have "rows_of ?df' = []" by (simp add: rows_of_def)
    then show ?thesis unfolding flt using True by simp
  next
    case False
    then show ?thesis
      unfolding flt by (auto simp: rows_of_def rows_eq intro!: nth_equalityI)
  qed
  from res len rows cols show ?thesis by blast
qed

lemma filter_df_kept_rows_example:
  "wf_df medals_ex
   \<and> (\<exists>df'. filter_df medals_ex gold_medal = Inr df' \<and> df_length df' = 2
          \<and> columns df' = [''Name'', ''Medal''])"
proof -
  have wf: "wf_df medals_ex" by (simp add: wf_df_def medals_ex_def)
  have rows: "rows_of medals_ex =
      [[(''Name'', PStr ''A''), (''Medal'', PStr ''Gold'')],
       [(''Name'', PStr ''B''), (''Medal'', PStr ''Silver'')],
       [(''Name'', PStr ''C''), (''Medal'', PStr ''Gold'')]]"
    by (simp add: rows_of_def row_at_def medals_ex_def upt_rec)
  have n: "length (filter gold_medal (rows_of medals_ex)) = 2"
    unfolding rows by (simp add: gold_medal_def)
  have c: "(if \<exists>row \<in> set (rows_of medals_ex). gold_medal row then columns medals_ex else [])
             = [''Name'', ''Medal'']"
    unfolding rows by (simp add: gold_medal_def columns_def medals_ex_def)
  from filter_df_kept_rows[OF wf, of gold_medal]
  obtain df' where "filter_df medals_ex gold_medal = Inr df'"
    and "df_length df' = length (filter gold_medal (rows_of medals_ex))"
    and "columns df' = (if \<exists>row \<in> set (rows_of medals_ex). gold_medal row
                         then columns medals_ex else [])"
    by blast
  then have "\<exists>df'. filter_df medals_ex gold_medal = Inr df' \<and> df_length df' = 2
                \<and> columns df' = [''Name'', ''Medal'']"
    unfolding n c by (intro exI[of _ df'] conjI)
  with wf show ?thesis by (intro conjI)
qed

text \<open>
  Claim C1: the columns of the result of \<open>filter\<close>, and their order, are those of the table.
  The code breaks this when no row satisfies the predicate. The table below has the columns
  \<open>Name\<close> and \<open>Medal\<close> and no row with a gold medal; \<open>filter\<close> returns the table without any
  column, and reading the column \<open>Medal\<close> of the result raises \<^verbatim>\<open>KeyError\<close>.
\<close>

theorem filter_empty_result_loses_columns:
  "DataFrame (df_data no_gold_ex) = Inr no_gold_ex
   \<and> columns no_gold_ex = [''Name'', ''Medal'']
   \<and> filter gold_medal (rows_of no_gold_ex) = []
   \<and> filter_df no_gold_ex gold_medal = Inr \<lparr>df_data = [], df_length = 0\<rparr>
   \<and> columns (\<lparr>df_data = [], df_length = 0\<rparr> :: pyval dataframe) = []
   \<and> getitem (\<lparr>df_data = [], df_length = 0\<rparr> :: pyval dataframe) ''Medal''
       = Inl (KeyError (''Column '' @ [CHR 0x27] @ ''Medal'' @ [CHR 0x27] @ '' not found''))"
  by (simp add: no_gold_ex_def columns_def filter_df_def row_at_def rows_of_def
        gold_medal_def getitem_def DataFrame_def upt_rec)

subsection \<open>The rows that a join appends\<close>

lemma join_columns_unfold:
  "join_columns set_order self other on suffixes =
     on @ map (\<lambda>col. if col \<in> set (non_key_cols set_order self on)
                               \<inter> set (non_key_cols set_order other on)
                      then col @ fst suffixes else col) (non_key_cols set_order self on)
        @ map (\<lambda>col. if col \<in> set (non_key_cols set_order self on)
                               \<inter> set (non_key_cols set_order other on)
                      then col @ snd suffixes else col) (non_key_cols set_order other on)"
  by (simp add: join_columns_def Let_def)

lemma length_join_columns:
  "length (join_columns set_order self other on suffixes)
     = length on + length (non_key_cols set_order self on)
       + length (non_key_cols set_order other on)"
  by (simp add: join_columns_unfold)

lemma length_matched_row [simp]:
  "length (matched_row set_order self other on i j)
     = length (join_columns set_order self other on suffixes)"
  by (simp add: matched_row_def key_at_def length_join_columns)

lemma length_left_only_row [simp]:
  "length (left_only_row set_order self other on i)
     = length (join_columns set_order self other on suffixes)"
  by (simp add: left_only_row_def key_at_def length_join_columns)

lemma length_right_only_row [simp]:
  "length (right_only_row set_order self other on j)
     = length (join_columns set_order self other on suffixes)"
  by (simp add: right_only_row_def key_at_def length_join_columns)

text \<open>One call of \<open>add_row\<close> on a dictionary filled by rows appends one row.\<close>

lemma add_row_matched:
  assumes "distinct (join_columns set_order self other on suffixes)"
  shows "add_row on (non_key_cols set_order self on) (non_key_cols set_order other on)
           (set (non_key_cols set_order self on) \<inter> set (non_key_cols set_order other on)) suffixes
           (\<lambda>col. data_of self col ! i) (\<lambda>col. data_of self col ! i)
           (\<lambda>col. data_of other col ! j)
           (columns_of (join_columns set_order self other on suffixes) rows)
         = columns_of (join_columns set_order self other on suffixes)
             (rows @ [matched_row set_order self other on i j])"
proof -
  have "append_row (join_columns set_order self other on suffixes)
          (matched_row set_order self other on i j)
          (columns_of (join_columns set_order self other on suffixes) rows)
        = columns_of (join_columns set_order self other on suffixes)
            (rows @ [matched_row set_order self other on i j])"
    by (rule columns_of_snoc[OF assms]) simp
  then show ?thesis
    by (simp add: add_row_append_row join_columns_unfold matched_row_def key_at_def)
qed

lemma add_row_left_only:
  assumes "distinct (join_columns set_order self other on suffixes)"
  shows "add_row on (non_key_cols set_order self on) (non_key_cols set_order other on)
           (set (non_key_cols set_order self on) \<inter> set (non_key_cols set_order other on)) suffixes
           (\<lambda>col. data_of self col ! i) (\<lambda>col. data_of self col ! i) (\<lambda>col. PNone)
           (columns_of (join_columns set_order self other on suffixes) rows)
         = columns_of (join_columns set_order self other on suffixes)
             (rows @ [left_only_row set_order self other on i])"
proof -
  have "append_row (join_columns set_order self other on suffixes)
          (left_only_row set_order self other on i)
          (columns_of (join_columns set_order self other on suffixes) rows)
        = columns_of (join_columns set_order self other on suffixes)
            (rows @ [left_only_row set_order self other on i])"
    by (rule columns_of_snoc[OF assms]) simp
  then show ?thesis
    by (simp add: add_row_append_row join_columns_unfold left_only_row_def key_at_def)
qed

lemma add_row_right_only:
  assumes "distinct (join_columns set_order self other on suffixes)"
  shows "add_row on (non_key_cols set_order self on) (non_key_cols set_order other on)
           (set (non_key_cols set_order self on) \<inter> set (non_key_cols set_order other on)) suffixes
           (\<lambda>col. data_of other col ! j) (\<lambda>col. PNone) (\<lambda>col. data_of other col ! j)
           (columns_of (join_columns set_order self other on suffixes) rows)
         = columns_of (join_columns set_order self other on suffixes)
             (rows @ [right_only_row set_order self other on j])"
proof -
  have "append_row (join_columns set_order self other on suffixes)
          (right_only_row set_order self other on j)
          (columns_of (join_columns set_order self other on suffixes) rows)
        = columns_of (join_columns set_order self other on suffixes)
            (rows @ [right_only_row set_order self other on j])"
    by (rule columns_of_snoc[OF assms]) simp
  then show ?thesis
    by (simp add: add_row_append_row join_columns_unfold right_only_row_def key_at_def)
qed

lemma fold_add_row_matched:
  assumes "distinct (join_columns set_order self other on suffixes)"
  shows "fold (\<lambda>right_idx.
            add_row on (non_key_cols set_order self on) (non_key_cols set_order other on)
              (set (non_key_cols set_order self on) \<inter> set (non_key_cols set_order other on))
              suffixes
              (\<lambda>col. data_of self col ! i) (\<lambda>col. data_of self col ! i)
              (\<lambda>col. data_of other col ! right_idx))
           js (columns_of (join_columns set_order self other on suffixes) rows)
         = columns_of (join_columns set_order self other on suffixes)
             (rows @ map (matched_row set_order self other on i) js)"
  by (induction js arbitrary: rows) (simp_all add: add_row_matched[OF assms])

lemma join_inner_left_rows:
  assumes "distinct (join_columns set_order self other on suffixes)"
  shows "join_inner_left self other on how
           (non_key_cols set_order self on) (non_key_cols set_order other on)
           (set (non_key_cols set_order self on) \<inter> set (non_key_cols set_order other on))
           suffixes (build_index other on)
           (columns_of (join_columns set_order self other on suffixes) rows)
         = columns_of (join_columns set_order self other on suffixes)
             (rows @ concat (map (rows_for_left set_order self other on how)
                               [0..<df_length self]))"
  unfolding join_inner_left_def
  by (rule fold_rows)
     (simp add: Let_def index_get_matches rows_for_left_def fold_add_row_matched[OF assms]
        add_row_left_only[OF assms])

text \<open>A well-formed join with an output row has an output column.\<close>

lemma set_non_key_cols:
  "set_iteration set_order \<Longrightarrow> wf_df df
   \<Longrightarrow> set (non_key_cols set_order df on) = set (columns df) - set on"
  by (auto simp: set_iteration_def non_key_cols_def wf_df_def columns_def)

lemma join_columns_nonempty_left:
  assumes "join_ok set_order self other on suffixes" and "0 < df_length self"
  shows "join_columns set_order self other on suffixes \<noteq> []"
proof
  assume e: "join_columns set_order self other on suffixes = []"
  from assms(1) have it: "set_iteration set_order" and wf: "wf_df self"
    by (simp_all add: join_ok_def)
  from e have "on = []" and "non_key_cols set_order self on = []"
    by (auto simp: join_columns_unfold)
  with set_non_key_cols[OF it wf, of on] have "columns self = []" by simp
  with wf assms(2) show False by (simp add: wf_df_def columns_def)
qed

lemma join_columns_nonempty_right:
  assumes "join_ok set_order self other on suffixes" and "0 < df_length other"
  shows "join_columns set_order self other on suffixes \<noteq> []"
proof
  assume e: "join_columns set_order self other on suffixes = []"
  from assms(1) have it: "set_iteration set_order" and wf: "wf_df other"
    by (simp_all add: join_ok_def)
  from e have "on = []" and "non_key_cols set_order other on = []"
    by (auto simp: join_columns_unfold)
  with set_non_key_cols[OF it wf, of on] have "columns other = []" by simp
  with wf assms(2) show False by (simp add: wf_df_def columns_def)
qed

lemma df_length_table_of [simp]: "df_length (table_of names rows) = length rows"
  by (simp add: table_of_def)

lemma table_rows_table_of:
  "\<forall>r \<in> set rows. length r = length names \<Longrightarrow> table_rows (table_of names rows) = rows"
  by (auto simp: table_of_def table_rows_columns_of) (simp add: table_rows_def)

lemma columns_table_of:
  "rows \<noteq> [] \<Longrightarrow> columns (table_of names rows) = names"
  by (simp add: table_of_def columns_def columns_columns_of)

lemma DataFrame_table_of:
  "(rows \<noteq> [] \<Longrightarrow> names \<noteq> []) \<Longrightarrow> DataFrame (columns_of names rows) = Inr (table_of names rows)"
  by (auto simp: DataFrame_columns_of table_of_def)

lemma join_inner_left_result:
  assumes ok: "join_ok set_order self other (as_list on) suffixes"
      and how: "how = ''inner'' \<or> how = ''left''"
  shows "join set_order self other on how suffixes
         = Inr (table_of (join_columns set_order self other (as_list on) suffixes)
                  (concat (map (rows_for_left set_order self other (as_list on) how)
                             [0..<df_length self])))"
proof -
  let ?on = "as_list on"
  let ?names = "join_columns set_order self other ?on suffixes"
  let ?rows = "concat (map (rows_for_left set_order self other ?on how) [0..<df_length self])"
  from ok have d: "distinct ?names"
    and v: "validate_on self other ?on = None"
    by (simp_all add: join_ok_def validate_on_ok)
  have start: "([] :: pyval coldict) = columns_of ?names []"
    by (simp add: columns_of_def)
  have body: "join_inner_left self other ?on how
           (non_key_cols set_order self ?on) (non_key_cols set_order other ?on)
           (set (non_key_cols set_order self ?on) \<inter> set (non_key_cols set_order other ?on))
           suffixes (build_index other ?on) [] = columns_of ?names ?rows"
    by (subst start, subst join_inner_left_rows[OF d]) simp
  have hows: "how \<noteq> ''right''" "how \<noteq> ''outer''" using how by auto
  have j: "join set_order self other on how suffixes = DataFrame (columns_of ?names ?rows)"
    using how hows v body
    by (simp add: join_def Let_def non_key_cols_def[symmetric])
  have "?names \<noteq> []" if "?rows \<noteq> []"
  proof (rule join_columns_nonempty_left[OF ok])
    from that show "0 < df_length self" by (cases "df_length self") auto
  qed
  then show ?thesis unfolding j by (rule DataFrame_table_of)
qed

lemma rows_for_left_lengths:
  "\<forall>r \<in> set (concat (map (rows_for_left set_order self other on how) idxs)).
     length r = length (join_columns set_order self other on suffixes)"
  by (auto simp: rows_for_left_def split: if_splits)

subsection \<open>Inner join\<close>

lemma count_list_map_filter:
  "count_list (map f xs) k = length (filter (\<lambda>x. f x = k) xs)"
  by (induction xs) auto

lemma length_matches:
  "length (matches self other on i) = count_list (row_keys other on) (key_at self on i)"
  by (simp add: matches_def row_keys_def count_list_map_filter)

lemma matches_empty_iff:
  "matches self other on i = [] \<longleftrightarrow> key_at self on i \<notin> set (row_keys other on)"
  by (auto simp: matches_def row_keys_def filter_empty_conv image_iff)

lemma sum_matches:
  "sum_list (map (\<lambda>i. length (matches self other on i)) [0..<df_length self])
     = (\<Sum>k \<in> set (row_keys self on) \<inter> set (row_keys other on).
          count_list (row_keys self on) k * count_list (row_keys other on) k)"
proof -
  let ?L = "row_keys self on" and ?R = "row_keys other on"
  have "sum_list (map (\<lambda>i. length (matches self other on i)) [0..<df_length self])
          = sum_list (map (\<lambda>k. count_list ?R k) ?L)"
    by (simp add: length_matches row_keys_def comp_def)
  also have "\<dots> = (\<Sum>k \<in> set ?L. count_list ?L k * count_list ?R k)"
    by (rule sum_list_map_eq_sum_count)
  also have "\<dots> = (\<Sum>k \<in> set ?L \<inter> set ?R. count_list ?L k * count_list ?R k)"
    by (rule sum.mono_neutral_right) (auto simp: count_list_0_iff)
  finally show ?thesis .
qed

lemma inner_rows:
  "concat (map (rows_for_left set_order self other on ''inner'') idxs)
     = concat (map (\<lambda>i. map (matched_row set_order self other on i) (matches self other on i))
                 idxs)"
  by (induction idxs) (auto simp: rows_for_left_def)

lemma length_inner_rows:
  "length (concat (map (\<lambda>i. map (matched_row set_order self other on i)
                                 (matches self other on i)) idxs))
     = sum_list (map (\<lambda>i. length (matches self other on i)) idxs)"
  by (simp add: length_concat comp_def)

text \<open>
  Claim C3, as amended. For well-formed tables and key columns that both have, when the names
  of the output columns (the keys, then the left and the right non-key columns with their
  suffixes) are pairwise distinct, the inner join raises no error; its row count is the sum, over
  the key values that occur on both sides, of the number of left rows with that key times the
  number of right rows with that key. Its rows are, for each left row in order, one row per
  matching right row: a left row that matches k right rows gives exactly k rows, and a left row
  without a match gives none.
\<close>

theorem inner_join_fan_out:
  "join_ok set_order self other (as_list on) suffixes \<Longrightarrow>
   \<exists>T. join set_order self other on ''inner'' suffixes = Inr T
     \<and> df_length T
         = (\<Sum>k \<in> set (row_keys self (as_list on)) \<inter> set (row_keys other (as_list on)).
              count_list (row_keys self (as_list on)) k
              * count_list (row_keys other (as_list on)) k)
     \<and> table_rows T
         = concat (map (\<lambda>i. map (matched_row set_order self other (as_list on) i)
                                (matches self other (as_list on) i))
                     [0..<df_length self])
     \<and> (\<forall>i < df_length self.
           length (matches self other (as_list on) i)
             = count_list (row_keys other (as_list on)) (key_at self (as_list on) i))
     \<and> (0 < df_length T \<longrightarrow> columns T = join_columns set_order self other (as_list on) suffixes)"
proof -
  assume ok: "join_ok set_order self other (as_list on) suffixes"
  let ?on = "as_list on"
  let ?names = "join_columns set_order self other ?on suffixes"
  let ?rows = "concat (map (\<lambda>i. map (matched_row set_order self other ?on i)
                                   (matches self other ?on i)) [0..<df_length self])"
  let ?T = "table_of ?names ?rows"
  have res: "join set_order self other on ''inner'' suffixes = Inr ?T"
    using join_inner_left_result[OF ok, of "''inner''"] by (simp add: inner_rows)
  have len: "df_length ?T
         = (\<Sum>k \<in> set (row_keys self ?on) \<inter> set (row_keys other ?on).
              count_list (row_keys self ?on) k * count_list (row_keys other ?on) k)"
    by (simp only: df_length_table_of length_inner_rows sum_matches)
  have "\<forall>r \<in> set ?rows. length r = length ?names"
    using rows_for_left_lengths[of set_order self other ?on "''inner''" "[0..<df_length self]" suffixes]
    by (simp only: inner_rows)
  then have rows: "table_rows ?T = ?rows" by (rule table_rows_table_of)
  have cols: "0 < df_length ?T \<longrightarrow> columns ?T = ?names"
    using columns_table_of[of ?rows ?names] by auto
  show ?thesis
    apply (rule exI[of _ ?T])
    apply (intro conjI)
        apply (rule res)
       apply (rule len)
      apply (rule rows)
     apply (simp add: length_matches)
    apply (rule cols)
    done
qed

theorem inner_join_fan_out_witness:
  "join_ok dict_order left_ex right_ex (as_list (Str ''id'')) (''_x'', ''_y'')
   \<and> (\<exists>T. join dict_order left_ex right_ex (Str ''id'') ''inner'' (''_x'', ''_y'') = Inr T
          \<and> df_length T = 2)"
proof -
  have ok: "join_ok dict_order left_ex right_ex (as_list (Str ''id'')) (''_x'', ''_y'')"
    by (simp add: join_ok_def set_iteration_def dict_order_def wf_df_def left_ex_def right_ex_def
          columns_def join_columns_def non_key_cols_def)
  have kl: "row_keys left_ex (as_list (Str ''id'')) = [[PInt 1], [PInt 2], [PInt 3]]"
    by (simp add: row_keys_def key_at_def data_of_def left_ex_def upt_rec)
  have kr: "row_keys right_ex (as_list (Str ''id'')) = [[PInt 2], [PInt 3], [PInt 4]]"
    by (simp add: row_keys_def key_at_def data_of_def right_ex_def upt_rec)
  have n: "(\<Sum>k \<in> set (row_keys left_ex (as_list (Str ''id'')))
                   \<inter> set (row_keys right_ex (as_list (Str ''id''))).
              count_list (row_keys left_ex (as_list (Str ''id''))) k
              * count_list (row_keys right_ex (as_list (Str ''id''))) k) = 2"
    unfolding kl kr by simp
  from inner_join_fan_out[OF ok]
  obtain T where "join dict_order left_ex right_ex (Str ''id'') ''inner'' (''_x'', ''_y'') = Inr T"
    and "df_length T
         = (\<Sum>k \<in> set (row_keys left_ex (as_list (Str ''id'')))
                   \<inter> set (row_keys right_ex (as_list (Str ''id''))).
              count_list (row_keys left_ex (as_list (Str ''id''))) k
              * count_list (row_keys right_ex (as_list (Str ''id''))) k)"
    by blast
  then have "\<exists>T. join dict_order left_ex right_ex (Str ''id'') ''inner'' (''_x'', ''_y'') = Inr T
                \<and> df_length T = 2"
    unfolding n by (intro exI[of _ T] conjI)
  with ok show ?thesis by (intro conjI)
qed

theorem inner_join_name_clash_doubles_rows:
  "wf_df clash_left \<and> wf_df clash_right
   \<and> row_keys clash_left [''c_x'', ''c_y''] = [[PInt 1, PInt 2]]
   \<and> row_keys clash_right [''c_x'', ''c_y''] = [[PInt 1, PInt 2]]
   \<and> join dict_order clash_left clash_right (StrList [''c_x'', ''c_y'']) ''inner'' (''_x'', ''_y'')
       = Inr \<lparr>df_data = [(''c_x'', [PInt 1, PInt 3]), (''c_y'', [PInt 2, PInt 4])],
              df_length = 2\<rparr>"
  by (simp add: wf_df_def clash_left_def clash_right_def row_keys_def key_at_def data_of_def
        join_def columns_def dict_order_def build_index_def join_inner_left_def index_get_def
        add_row_def DataFrame_def upt_rec)

subsection \<open>Left join\<close>

lemma left_rows:
  "concat (map (rows_for_left set_order self other on ''left'') idxs)
     = concat (map (\<lambda>i. if matches self other on i = []
                          then [left_only_row set_order self other on i]
                          else map (matched_row set_order self other on i)
                                 (matches self other on i))
                 idxs)"
  by (induction idxs) (auto simp: rows_for_left_def)

lemma left_join_example:
  "join dict_order left_ex right_ex (Str ''id'') ''left'' (''_x'', ''_y'')
     = Inr \<lparr>df_data = [(''id'', [PInt 1, PInt 2, PInt 3]),
                       (''v'', [PNone, PStr ''x'', PStr ''y''])],
            df_length = 3\<rparr>"
  by (simp add: join_def left_ex_def right_ex_def dict_order_def columns_def build_index_def
        key_at_def data_of_def join_inner_left_def index_get_def add_row_def DataFrame_def upt_rec)

text \<open>
  Claim C2, as amended. For well-formed tables and key columns that both have, when the names
  of the output columns are pairwise distinct, the left join raises no error, and its rows are,
  for each left row in order, one row per matching right row or, when no right row matches, exactly
  one row that holds the left row's keys and non-key cells and \<^verbatim>\<open>None\<close> in every right non-key
  column. \<^verbatim>\<open>None\<close> is neither the string "NA" nor the empty string. In particular the join of
  the example tables has exactly three rows, and its row for \<open>id = 1\<close> holds \<^verbatim>\<open>None\<close> in \<open>v\<close>.
\<close>

theorem left_join_unmatched_row_has_none:
  "join_ok set_order self other (as_list on) suffixes \<Longrightarrow>
   (\<exists>T. join set_order self other on ''left'' suffixes = Inr T
      \<and> table_rows T
          = concat (map (\<lambda>i. if matches self other (as_list on) i = []
                               then [left_only_row set_order self other (as_list on) i]
                               else map (matched_row set_order self other (as_list on) i)
                                      (matches self other (as_list on) i))
                      [0..<df_length self])
      \<and> (0 < df_length T \<longrightarrow> columns T = join_columns set_order self other (as_list on) suffixes))
   \<and> (\<forall>i. left_only_row set_order self other (as_list on) i
            = key_at self (as_list on) i
              @ map (\<lambda>col. data_of self col ! i) (non_key_cols set_order self (as_list on))
              @ replicate (length (non_key_cols set_order other (as_list on))) PNone)
   \<and> PNone \<noteq> PStr ''NA'' \<and> PNone \<noteq> PStr ''''
   \<and> join dict_order left_ex right_ex (Str ''id'') ''left'' (''_x'', ''_y'')
       = Inr \<lparr>df_data = [(''id'', [PInt 1, PInt 2, PInt 3]),
                         (''v'', [PNone, PStr ''x'', PStr ''y''])],
              df_length = 3\<rparr>"
proof -
  assume ok: "join_ok set_order self other (as_list on) suffixes"
  let ?on = "as_list on"
  let ?names = "join_columns set_order self other ?on suffixes"
  let ?rows = "concat (map (\<lambda>i. if matches self other ?on i = []
                               then [left_only_row set_order self other ?on i]
                               else map (matched_row set_order self other ?on i)
                                      (matches self other ?on i))
                      [0..<df_length self])"
  let ?T = "table_of ?names ?rows"
  have res: "join set_order self other on ''left'' suffixes = Inr ?T"
    using join_inner_left_result[OF ok, of "''left''"] by (simp add: left_rows)
  have "\<forall>r \<in> set ?rows. length r = length ?names"
    using rows_for_left_lengths[of set_order self other ?on "''left''" "[0..<df_length self]" suffixes]
    by (simp only: left_rows)
  then have rows: "table_rows ?T = ?rows" by (rule table_rows_table_of)
  have cols: "0 < df_length ?T \<longrightarrow> columns ?T = ?names"
    using columns_table_of[of ?rows ?names] by auto
  have ex: "\<exists>T. join set_order self other on ''left'' suffixes = Inr T
      \<and> table_rows T = ?rows
      \<and> (0 < df_length T \<longrightarrow> columns T = ?names)"
    by (intro exI[of _ ?T] conjI res rows cols)
  have none: "\<forall>i. left_only_row set_order self other ?on i
            = key_at self ?on i
              @ map (\<lambda>col. data_of self col ! i) (non_key_cols set_order self ?on)
              @ replicate (length (non_key_cols set_order other ?on)) PNone"
    by (simp add: left_only_row_def map_replicate_const)
  show ?thesis
    by (intro conjI ex none left_join_example) simp_all
qed

theorem left_join_unmatched_row_has_none_witness:
  "join_ok dict_order left_ex right_ex (as_list (Str ''id'')) (''_x'', ''_y'')
   \<and> (\<exists>T. join dict_order left_ex right_ex (Str ''id'') ''left'' (''_x'', ''_y'') = Inr T
          \<and> table_rows T = [[PInt 1, PNone], [PInt 2, PStr ''x''], [PInt 3, PStr ''y'']])"
proof -
  have ok: "join_ok dict_order left_ex right_ex (as_list (Str ''id'')) (''_x'', ''_y'')"
    by (simp add: join_ok_def set_iteration_def dict_order_def wf_df_def left_ex_def right_ex_def
          columns_def join_columns_def non_key_cols_def)
  have r: "concat (map (\<lambda>i. if matches left_ex right_ex (as_list (Str ''id'')) i = []
                               then [left_only_row dict_order left_ex right_ex (as_list (Str ''id'')) i]
                               else map (matched_row dict_order left_ex right_ex (as_list (Str ''id'')) i)
                                      (matches left_ex right_ex (as_list (Str ''id'')) i))
                      [0..<df_length left_ex])
            = [[PInt 1, PNone], [PInt 2, PStr ''x''], [PInt 3, PStr ''y'']]"
    by (simp add: matches_def key_at_def data_of_def left_only_row_def matched_row_def
          non_key_cols_def dict_order_def columns_def left_ex_def right_ex_def upt_rec)
  from left_join_unmatched_row_has_none[OF ok]
  obtain T where "join dict_order left_ex right_ex (Str ''id'') ''left'' (''_x'', ''_y'') = Inr T"
    and "table_rows T
          = concat (map (\<lambda>i. if matches left_ex right_ex (as_list (Str ''id'')) i = []
                               then [left_only_row dict_order left_ex right_ex (as_list (Str ''id'')) i]
                               else map (matched_row dict_order left_ex right_ex (as_list (Str ''id'')) i)
                                      (matches left_ex right_ex (as_list (Str ''id'')) i))
                      [0..<df_length left_ex])"
    by blast
  then have "\<exists>T. join dict_order left_ex right_ex (Str ''id'') ''left'' (''_x'', ''_y'') = Inr T
          \<and> table_rows T = [[PInt 1, PNone], [PInt 2, PStr ''x''], [PInt 3, PStr ''y'']]"
    unfolding r by (intro exI[of _ T] conjI)
  with ok show ?thesis by (intro conjI)
qed

theorem left_join_missing_is_none_not_sentinel:
  "getitem \<lparr>df_data = [(''id'', [PInt 1, PInt 2, PInt 3]),
                       (''v'', [PNone, PStr ''x'', PStr ''y''])],
            df_length = 3\<rparr> ''v'' = Inr [PNone, PStr ''x'', PStr ''y'']
   \<and> join dict_order left_ex right_ex (Str ''id'') ''left'' (''_x'', ''_y'')
       = Inr \<lparr>df_data = [(''id'', [PInt 1, PInt 2, PInt 3]),
                         (''v'', [PNone, PStr ''x'', PStr ''y''])],
              df_length = 3\<rparr>
   \<and> PNone \<noteq> PStr ''NA'' \<and> PNone \<noteq> PStr ''''"
  by (simp add: getitem_def join_def left_ex_def right_ex_def dict_order_def columns_def
        build_index_def key_at_def data_of_def join_inner_left_def index_get_def add_row_def
        DataFrame_def upt_rec)

subsection \<open>Outer join\<close>

lemma fold_matched_right:
  "fold (\<lambda>right_idx (result_data, matched_left, matched_right).
           (A right_idx result_data, matched_left, insert right_idx matched_right))
        js (rd, ml, mr)
     = (fold A js rd, ml, mr \<union> set js)"
  by (induction js arbitrary: rd mr) auto

lemma outer_inner_part_rows:
  assumes d: "distinct (join_columns set_order self other on suffixes)"
  shows "outer_inner_part self other on
           (non_key_cols set_order self on) (non_key_cols set_order other on)
           (set (non_key_cols set_order self on) \<inter> set (non_key_cols set_order other on))
           suffixes (build_index other on)
           (columns_of (join_columns set_order self other on suffixes) rows, {}, {})
         = (columns_of (join_columns set_order self other on suffixes)
              (rows @ concat (map (\<lambda>i. map (matched_row set_order self other on i)
                                          (matches self other on i))
                                [0..<df_length self])),
            set (filter (\<lambda>i. matches self other on i \<noteq> []) [0..<df_length self]),
            set (concat (map (matches self other on) [0..<df_length self])))"
proof -
  let ?names = "join_columns set_order self other on suffixes"
  let ?F = "\<lambda>i (result_data, matched_left, matched_right).
             let key = key_at self on i;
                 right_matches = index_get (build_index other on) key
             in if right_matches \<noteq> [] then
                  fold (\<lambda>right_idx (result_data, matched_left, matched_right).
                          (add_row on (non_key_cols set_order self on)
                             (non_key_cols set_order other on)
                             (set (non_key_cols set_order self on)
                                \<inter> set (non_key_cols set_order other on)) suffixes
                             (\<lambda>col. data_of self col ! i)
                             (\<lambda>col. data_of self col ! i)
                             (\<lambda>col. data_of other col ! right_idx) result_data,
                           matched_left, insert right_idx matched_right))
                       right_matches (result_data, insert i matched_left, matched_right)
                else (result_data, matched_left, matched_right)"
  have step: "?F i (columns_of ?names rows, ml, mr)
            = (columns_of ?names (rows @ map (matched_row set_order self other on i)
                                            (matches self other on i)),
               ml \<union> set (filter (\<lambda>i. matches self other on i \<noteq> []) [i]),
               mr \<union> set (matches self other on i))" for i rows ml mr
    by (simp add: Let_def index_get_matches fold_matched_right fold_add_row_matched[OF d])
  have gen: "fold ?F idxs (columns_of ?names rows, ml, mr)
         = (columns_of ?names
              (rows @ concat (map (\<lambda>i. map (matched_row set_order self other on i)
                                          (matches self other on i)) idxs)),
            ml \<union> set (filter (\<lambda>i. matches self other on i \<noteq> []) idxs),
            mr \<union> set (concat (map (matches self other on) idxs)))" for idxs rows ml mr
  proof (induction idxs arbitrary: rows ml mr)
    case Nil
    then show ?case by simp
  next
    case (Cons i idxs)
    have "fold ?F (i # idxs) (columns_of ?names rows, ml, mr)
            = fold ?F idxs (?F i (columns_of ?names rows, ml, mr))"
      by (simp only: fold_simps)
    also have "\<dots> = fold ?F idxs
            (columns_of ?names (rows @ map (matched_row set_order self other on i)
                                            (matches self other on i)),
             ml \<union> set (filter (\<lambda>i. matches self other on i \<noteq> []) [i]),
             mr \<union> set (matches self other on i))"
      by (simp only: step)
    also have "\<dots> = (columns_of ?names
              ((rows @ map (matched_row set_order self other on i) (matches self other on i))
               @ concat (map (\<lambda>i. map (matched_row set_order self other on i)
                                          (matches self other on i)) idxs)),
            (ml \<union> set (filter (\<lambda>i. matches self other on i \<noteq> []) [i]))
              \<union> set (filter (\<lambda>i. matches self other on i \<noteq> []) idxs),
            (mr \<union> set (matches self other on i))
              \<union> set (concat (map (matches self other on) idxs)))"
      by (rule Cons.IH)
    also have "\<dots> = (columns_of ?names
              (rows @ concat (map (\<lambda>i. map (matched_row set_order self other on i)
                                          (matches self other on i)) (i # idxs))),
            ml \<union> set (filter (\<lambda>i. matches self other on i \<noteq> []) (i # idxs)),
            mr \<union> set (concat (map (matches self other on) (i # idxs))))"
      by (simp add: Un_assoc)
    finally show ?case .
  qed
  show ?thesis
    unfolding outer_inner_part_def using gen[of "[0..<df_length self]" rows "{}" "{}"]
    by simp
qed

lemma unmatched_left_filter:
  "filter (\<lambda>i. i \<notin> set (filter (\<lambda>i. matches self other on i \<noteq> []) [0..<df_length self]))
          [0..<df_length self]
     = unmatched_left self other on"
  unfolding unmatched_left_def by (rule filter_cong) auto

lemma in_matches_iff:
  "j \<in> set (matches self other on i)
     \<longleftrightarrow> j < df_length other \<and> key_at other on j = key_at self on i"
  by (auto simp: matches_def)

lemma matches_swap_empty:
  "matches other self on j = []
     \<longleftrightarrow> (\<forall>i < df_length self. key_at other on j \<noteq> key_at self on i)"
proof -
  have "(key_at self on i = key_at other on j) = (key_at other on j = key_at self on i)" for i
    by (rule eq_commute)
  then show ?thesis by (auto simp: matches_def filter_empty_conv)
qed

lemma unmatched_right_filter:
  "filter (\<lambda>j. j \<notin> set (concat (map (matches self other on) [0..<df_length self])))
          [0..<df_length other]
     = unmatched_right self other on"
  unfolding unmatched_right_def
proof (rule filter_cong[OF refl])
  fix j
  assume "j \<in> set [0..<df_length other]"
  then have j: "j < df_length other" by simp
  show "(j \<notin> set (concat (map (matches self other on) [0..<df_length self])))
                 = (matches other self on j = [])"
    unfolding matches_swap_empty using j by (auto simp: in_matches_iff)
qed

lemma fold_left_only:
  assumes d: "distinct (join_columns set_order self other on suffixes)"
  shows "fold (\<lambda>i result_data.
                 if i \<notin> M then
                   add_row on (non_key_cols set_order self on) (non_key_cols set_order other on)
                     (set (non_key_cols set_order self on) \<inter> set (non_key_cols set_order other on))
                     suffixes
                     (\<lambda>col. data_of self col ! i) (\<lambda>col. data_of self col ! i) (\<lambda>col. PNone)
                     result_data
                 else result_data)
              idxs (columns_of (join_columns set_order self other on suffixes) rows)
         = columns_of (join_columns set_order self other on suffixes)
             (rows @ map (left_only_row set_order self other on) (filter (\<lambda>i. i \<notin> M) idxs))"
  by (induction idxs arbitrary: rows) (simp_all add: add_row_left_only[OF d])

lemma fold_right_only:
  assumes d: "distinct (join_columns set_order self other on suffixes)"
  shows "fold (\<lambda>i result_data.
                 if i \<notin> M then
                   add_row on (non_key_cols set_order self on) (non_key_cols set_order other on)
                     (set (non_key_cols set_order self on) \<inter> set (non_key_cols set_order other on))
                     suffixes
                     (\<lambda>col. data_of other col ! i) (\<lambda>col. PNone) (\<lambda>col. data_of other col ! i)
                     result_data
                 else result_data)
              idxs (columns_of (join_columns set_order self other on suffixes) rows)
         = columns_of (join_columns set_order self other on suffixes)
             (rows @ map (right_only_row set_order self other on) (filter (\<lambda>i. i \<notin> M) idxs))"
  by (induction idxs arbitrary: rows) (simp_all add: add_row_right_only[OF d])

lemma join_outer_rows:
  assumes d: "distinct (join_columns set_order self other on suffixes)"
  shows "join_outer self other on
           (non_key_cols set_order self on) (non_key_cols set_order other on)
           (set (non_key_cols set_order self on) \<inter> set (non_key_cols set_order other on))
           suffixes (build_index other on)
           (columns_of (join_columns set_order self other on suffixes) [])
         = columns_of (join_columns set_order self other on suffixes)
             (concat (map (\<lambda>i. map (matched_row set_order self other on i)
                                   (matches self other on i))
                        [0..<df_length self])
              @ map (left_only_row set_order self other on) (unmatched_left self other on)
              @ map (right_only_row set_order self other on) (unmatched_right self other on))"
  unfolding join_outer_def outer_inner_part_rows[OF d]
  by (simp only: prod.case Let_def fold_left_only[OF d] fold_right_only[OF d]
        unmatched_left_filter unmatched_right_filter append_Nil append_assoc)

lemma matched_rows_pairs:
  "concat (map (\<lambda>i. map (matched_row set_order self other on i) (matches self other on i)) idxs)
     = map (\<lambda>(i, j). matched_row set_order self other on i j)
         (concat (map (\<lambda>i. map (Pair i) (matches self other on i)) idxs))"
  by (induction idxs) (simp_all add: comp_def)

lemma join_outer_result:
  assumes ok: "join_ok set_order self other (as_list on) suffixes"
  shows "join set_order self other on ''outer'' suffixes
         = Inr (table_of (join_columns set_order self other (as_list on) suffixes)
                  (concat (map (\<lambda>i. map (matched_row set_order self other (as_list on) i)
                                        (matches self other (as_list on) i))
                             [0..<df_length self])
                   @ map (left_only_row set_order self other (as_list on))
                       (unmatched_left self other (as_list on))
                   @ map (right_only_row set_order self other (as_list on))
                       (unmatched_right self other (as_list on))))"
proof -
  let ?on = "as_list on"
  let ?names = "join_columns set_order self other ?on suffixes"
  let ?rows = "concat (map (\<lambda>i. map (matched_row set_order self other ?on i)
                                   (matches self other ?on i)) [0..<df_length self])
               @ map (left_only_row set_order self other ?on) (unmatched_left self other ?on)
               @ map (right_only_row set_order self other ?on) (unmatched_right self other ?on)"
  from ok have d: "distinct ?names"
    and v: "validate_on self other ?on = None"
    by (simp_all add: join_ok_def validate_on_ok)
  have start: "([] :: pyval coldict) = columns_of ?names []"
    by (simp add: columns_of_def)
  have body: "join_outer self other ?on
           (non_key_cols set_order self ?on) (non_key_cols set_order other ?on)
           (set (non_key_cols set_order self ?on) \<inter> set (non_key_cols set_order other ?on))
           suffixes (build_index other ?on) [] = columns_of ?names ?rows"
    by (subst start, subst join_outer_rows[OF d]) simp
  have j: "join set_order self other on ''outer'' suffixes = DataFrame (columns_of ?names ?rows)"
    using v body by (simp add: join_def Let_def non_key_cols_def[symmetric])
  have "?names \<noteq> []" if ne: "?rows \<noteq> []"
  proof (cases "0 < df_length self")
    case True
    then show ?thesis by (rule join_columns_nonempty_left[OF ok])
  next
    case False
    with ne have "unmatched_right self other ?on \<noteq> []"
      by (simp add: unmatched_left_def)
    then have "0 < df_length other"
      by (cases "df_length other") (auto simp: unmatched_right_def)
    then show ?thesis by (rule join_columns_nonempty_right[OF ok])
  qed
  then show ?thesis unfolding j by (rule DataFrame_table_of)
qed

lemma distinct_matches: "distinct (matches self other on i)"
  by (simp add: matches_def)

lemma distinct_inner_pairs: "distinct (inner_pairs self other on)"
proof -
  have "distinct (concat (map (\<lambda>i. map (Pair i) (matches self other on i)) idxs))"
    if "distinct idxs" for idxs
    using that
    by (induction idxs) (auto simp: distinct_map distinct_matches inj_on_def)
  then show ?thesis by (simp add: inner_pairs_def)
qed

lemma set_inner_pairs:
  "set (inner_pairs self other on)
     = {(i, j). i < df_length self \<and> j \<in> set (matches self other on i)}"
  by (auto simp: inner_pairs_def)

lemma fst_inner_pairs:
  "fst ` set (inner_pairs self other on)
     = {i. i < df_length self \<and> matches self other on i \<noteq> []}"
proof -
  have "(\<exists>j. j \<in> set (matches self other on i)) \<longleftrightarrow> matches self other on i \<noteq> []" for i
    by (cases "matches self other on i") auto
  then show ?thesis unfolding set_inner_pairs by (auto simp: image_iff)
qed

lemma snd_inner_pairs:
  "snd ` set (inner_pairs self other on)
     = {j. j < df_length other \<and> matches other self on j \<noteq> []}"
  unfolding set_inner_pairs matches_swap_empty by (auto simp: image_iff in_matches_iff)

text \<open>
  Claim C4, as amended. For well-formed tables and key columns that both have, when the names
  of the output columns are pairwise distinct, the outer join and the inner join raise no error;
  the rows of the outer join are the rows of the inner join, then one row for each left row
  without a match, then one row for each right row without a match, and its row count is the
  inner join's row count plus the numbers of unmatched left and unmatched right rows. A left row
  is in the inner part or among the unmatched left rows and never in both, and likewise a right
  row; no pair and no unmatched row is emitted twice. This holds whatever the number of rows
  with one key on either side.
\<close>

theorem outer_join_three_phases:
  "join_ok set_order self other (as_list on) suffixes \<Longrightarrow>
   \<exists>T_outer T_inner.
       join set_order self other on ''outer'' suffixes = Inr T_outer
     \<and> join set_order self other on ''inner'' suffixes = Inr T_inner
     \<and> df_length T_outer
         = df_length T_inner + length (unmatched_left self other (as_list on))
           + length (unmatched_right self other (as_list on))
     \<and> table_rows T_outer
         = table_rows T_inner
           @ map (left_only_row set_order self other (as_list on))
               (unmatched_left self other (as_list on))
           @ map (right_only_row set_order self other (as_list on))
               (unmatched_right self other (as_list on))
     \<and> table_rows T_inner
         = map (\<lambda>(i, j). matched_row set_order self other (as_list on) i j)
             (inner_pairs self other (as_list on))
     \<and> set (unmatched_left self other (as_list on))
           \<inter> fst ` set (inner_pairs self other (as_list on)) = {}
     \<and> set (unmatched_right self other (as_list on))
           \<inter> snd ` set (inner_pairs self other (as_list on)) = {}
     \<and> set (unmatched_left self other (as_list on))
           \<union> fst ` set (inner_pairs self other (as_list on)) = {0..<df_length self}
     \<and> set (unmatched_right self other (as_list on))
           \<union> snd ` set (inner_pairs self other (as_list on)) = {0..<df_length other}
     \<and> distinct (inner_pairs self other (as_list on))
     \<and> distinct (unmatched_left self other (as_list on))
     \<and> distinct (unmatched_right self other (as_list on))"
proof -
  assume ok: "join_ok set_order self other (as_list on) suffixes"
  let ?on = "as_list on"
  let ?names = "join_columns set_order self other ?on suffixes"
  let ?inner = "concat (map (\<lambda>i. map (matched_row set_order self other ?on i)
                                    (matches self other ?on i)) [0..<df_length self])"
  let ?ul = "map (left_only_row set_order self other ?on) (unmatched_left self other ?on)"
  let ?ur = "map (right_only_row set_order self other ?on) (unmatched_right self other ?on)"
  let ?To = "table_of ?names (?inner @ ?ul @ ?ur)"
  let ?Ti = "table_of ?names ?inner"
  have outer: "join set_order self other on ''outer'' suffixes = Inr ?To"
    by (rule join_outer_result[OF ok])
  have inner: "join set_order self other on ''inner'' suffixes = Inr ?Ti"
    using join_inner_left_result[OF ok, of "''inner''"] by (simp add: inner_rows)
  have len: "df_length ?To = df_length ?Ti + length (unmatched_left self other ?on)
               + length (unmatched_right self other ?on)"
    by simp
  have li: "\<forall>r \<in> set ?inner. length r = length ?names"
    using rows_for_left_lengths[of set_order self other ?on "''inner''" "[0..<df_length self]" suffixes]
    by (simp only: inner_rows)
  then have lo: "\<forall>r \<in> set (?inner @ ?ul @ ?ur). length r = length ?names"
    by auto
  have ri: "table_rows ?Ti = ?inner" using li by (rule table_rows_table_of)
  have ro: "table_rows ?To = table_rows ?Ti @ ?ul @ ?ur"
    unfolding ri using lo by (rule table_rows_table_of)
  have pairs: "table_rows ?Ti
         = map (\<lambda>(i, j). matched_row set_order self other ?on i j) (inner_pairs self other ?on)"
    unfolding ri inner_pairs_def by (rule matched_rows_pairs)
  have dl: "set (unmatched_left self other ?on) \<inter> fst ` set (inner_pairs self other ?on) = {}"
    unfolding fst_inner_pairs by (auto simp: unmatched_left_def)
  have dr: "set (unmatched_right self other ?on) \<inter> snd ` set (inner_pairs self other ?on) = {}"
    unfolding snd_inner_pairs by (auto simp: unmatched_right_def)
  have ul: "set (unmatched_left self other ?on) \<union> fst ` set (inner_pairs self other ?on)
              = {0..<df_length self}"
    unfolding fst_inner_pairs by (auto simp: unmatched_left_def)
  have ur: "set (unmatched_right self other ?on) \<union> snd ` set (inner_pairs self other ?on)
              = {0..<df_length other}"
    unfolding snd_inner_pairs by (auto simp: unmatched_right_def)
  have d1: "distinct (unmatched_left self other ?on)" by (simp add: unmatched_left_def)
  have d2: "distinct (unmatched_right self other ?on)" by (simp add: unmatched_right_def)
  show ?thesis
    by (intro exI[of _ ?To] exI[of _ ?Ti] conjI outer inner len ro pairs dl dr ul ur
          distinct_inner_pairs d1 d2)
qed

theorem outer_join_three_phases_witness:
  "join_ok dict_order left_ex right_ex (as_list (Str ''id'')) (''_x'', ''_y'')
   \<and> (\<exists>T_outer T_inner.
         join dict_order left_ex right_ex (Str ''id'') ''outer'' (''_x'', ''_y'') = Inr T_outer
       \<and> join dict_order left_ex right_ex (Str ''id'') ''inner'' (''_x'', ''_y'') = Inr T_inner
       \<and> df_length T_outer = df_length T_inner + 1 + 1
       \<and> table_rows T_outer = table_rows T_inner @ [[PInt 1, PNone]] @ [[PInt 4, PStr ''z'']])"
proof -
  have ok: "join_ok dict_order left_ex right_ex (as_list (Str ''id'')) (''_x'', ''_y'')"
    by (simp add: join_ok_def set_iteration_def dict_order_def wf_df_def left_ex_def right_ex_def
          columns_def join_columns_def non_key_cols_def)
  have ul: "unmatched_left left_ex right_ex (as_list (Str ''id'')) = [0]"
    by (simp add: unmatched_left_def matches_def key_at_def data_of_def left_ex_def right_ex_def
          upt_rec)
  have ur: "unmatched_right left_ex right_ex (as_list (Str ''id'')) = [2]"
    by (simp add: unmatched_right_def matches_def key_at_def data_of_def left_ex_def right_ex_def
          upt_rec)
  have l: "left_only_row dict_order left_ex right_ex [''id''] 0 = [PInt 1, PNone]"
    by (simp add: left_only_row_def key_at_def data_of_def non_key_cols_def dict_order_def
          columns_def left_ex_def right_ex_def)
  have r: "right_only_row dict_order left_ex right_ex [''id''] 2 = [PInt 4, PStr ''z'']"
    by (simp add: right_only_row_def key_at_def data_of_def non_key_cols_def dict_order_def
          columns_def left_ex_def right_ex_def)
  from outer_join_three_phases[OF ok]
  have "\<exists>T_outer T_inner.
         join dict_order left_ex right_ex (Str ''id'') ''outer'' (''_x'', ''_y'') = Inr T_outer
       \<and> join dict_order left_ex right_ex (Str ''id'') ''inner'' (''_x'', ''_y'') = Inr T_inner
       \<and> df_length T_outer
           = df_length T_inner + length (unmatched_left left_ex right_ex (as_list (Str ''id'')))
             + length (unmatched_right left_ex right_ex (as_list (Str ''id'')))
       \<and> table_rows T_outer
           = table_rows T_inner
             @ map (left_only_row dict_order left_ex right_ex (as_list (Str ''id'')))
                 (unmatched_left left_ex right_ex (as_list (Str ''id'')))
             @ map (right_only_row dict_order left_ex right_ex (as_list (Str ''id'')))
                 (unmatched_right left_ex right_ex (as_list (Str ''id'')))"
    by (elim exE conjE) (intro exI conjI, assumption+)
  then have "\<exists>T_outer T_inner.
         join dict_order left_ex right_ex (Str ''id'') ''outer'' (''_x'', ''_y'') = Inr T_outer
       \<and> join dict_order left_ex right_ex (Str ''id'') ''inner'' (''_x'', ''_y'') = Inr T_inner
       \<and> df_length T_outer = df_length T_inner + 1 + 1
       \<and> table_rows T_outer = table_rows T_inner @ [[PInt 1, PNone]] @ [[PInt 4, PStr ''z'']]"
    unfolding ul ur by (simp add: l r)
  with ok show ?thesis by (intro conjI)
qed

theorem outer_join_name_clash_row_count:
  "wf_df clash_left2 \<and> wf_df clash_right
   \<and> join dict_order clash_left2 clash_right (StrList [''c_x'', ''c_y'']) ''inner'' (''_x'', ''_y'')
       = Inr \<lparr>df_data = [(''c_x'', [PInt 1, PInt 3]), (''c_y'', [PInt 2, PInt 4])],
              df_length = 2\<rparr>
   \<and> join dict_order clash_left2 clash_right (StrList [''c_x'', ''c_y'']) ''outer'' (''_x'', ''_y'')
       = Inr \<lparr>df_data = [(''c_x'', [PInt 1, PInt 3, PInt 5, PInt 7]),
                         (''c_y'', [PInt 2, PInt 4, PInt 6, PNone])],
              df_length = 4\<rparr>
   \<and> unmatched_left clash_left2 clash_right [''c_x'', ''c_y''] = [1]
   \<and> unmatched_right clash_left2 clash_right [''c_x'', ''c_y''] = []"
  by (simp add: wf_df_def clash_left2_def clash_right_def key_at_def data_of_def
        join_def columns_def dict_order_def build_index_def join_inner_left_def index_get_def
        join_outer_def outer_inner_part_def unmatched_left_def unmatched_right_def matches_def
        add_row_def DataFrame_def upt_rec)

section \<open>Grouping and counting\<close>

subsection \<open>The groups\<close>

lemma map_of_column:
  "col \<in> set (columns df) \<Longrightarrow> map_of (df_data df) col = Some (data_of df col)"
proof -
  assume "col \<in> set (columns df)"
  then have "map_of (df_data df) col \<noteq> None"
    by (simp add: columns_def map_of_eq_None_iff)
  then show ?thesis by (auto simp: data_of_def)
qed

lemma tuple_at_ok:
  "set cols \<subseteq> set (columns df) \<Longrightarrow> tuple_at df i cols = Inr (key_at df cols i)"
  by (induction cols) (simp_all add: key_at_def map_of_column)

lemma build_groups_loop_ok:
  "set cols \<subseteq> set (columns df) \<Longrightarrow>
   build_groups_loop df cols idxs groups
     = Inr (fold (\<lambda>i. dd_append (key_at df cols i) i) idxs groups)"
  by (induction idxs arbitrary: groups) (simp_all add: tuple_at_ok)

lemma dd_append_map_in:
  "distinct ks \<Longrightarrow> k \<in> set ks \<Longrightarrow>
   dd_append k v (map (\<lambda>k'. (k', g k')) ks)
     = map (\<lambda>k'. (k', if k' = k then g k' @ [v] else g k')) ks"
  by (induction ks) auto

lemma dd_append_map_notin:
  "k \<notin> set ks \<Longrightarrow>
   dd_append k v (map (\<lambda>k'. (k', g k')) ks) = map (\<lambda>k'. (k', g k')) ks @ [(k, [v])]"
  by (rule dd_append_fresh) (auto simp: image_iff)

lemma groups_first_seen:
  "fold (\<lambda>i. dd_append (f i) i) idxs []
     = map (\<lambda>k. (k, filter (\<lambda>i. f i = k) idxs)) (first_seen (map f idxs))"
proof (induction idxs rule: rev_induct)
  case Nil
  then show ?case by simp
next
  case (snoc i idxs)
  let ?ks = "first_seen (map f idxs)"
  have step: "fold (\<lambda>i. dd_append (f i) i) (idxs @ [i]) []
                = dd_append (f i) i (map (\<lambda>k. (k, filter (\<lambda>i. f i = k) idxs)) ?ks)"
    by (simp add: snoc.IH)
  show ?case
  proof (cases "f i \<in> set (map f idxs)")
    case True
    then have "f i \<in> set ?ks" by simp
    have "dd_append (f i) i (map (\<lambda>k. (k, filter (\<lambda>i. f i = k) idxs)) ?ks)
            = map (\<lambda>k'. (k', if k' = f i then filter (\<lambda>i. f i = k') idxs @ [i]
                                else filter (\<lambda>i. f i = k') idxs)) ?ks"
      by (rule dd_append_map_in[OF distinct_first_seen \<open>f i \<in> set ?ks\<close>])
    also have "\<dots> = map (\<lambda>k. (k, filter (\<lambda>j. f j = k) (idxs @ [i]))) ?ks"
      by (intro map_cong refl) auto
    finally have "dd_append (f i) i (map (\<lambda>k. (k, filter (\<lambda>i. f i = k) idxs)) ?ks)
            = map (\<lambda>k. (k, filter (\<lambda>j. f j = k) (idxs @ [i]))) ?ks" .
    with True show ?thesis unfolding step by (simp add: first_seen_snoc)
  next
    case False
    then have notin: "f i \<notin> set ?ks" by simp
    have none: "filter (\<lambda>j. f j = f i) idxs = []"
      using False by (simp add: filter_empty_conv) (metis image_eqI)
    have same: "map (\<lambda>k. (k, filter (\<lambda>j. f j = k) (idxs @ [i]))) ?ks
                  = map (\<lambda>k. (k, filter (\<lambda>i. f i = k) idxs)) ?ks"
      using notin by (intro map_cong) auto
    show ?thesis
      unfolding step dd_append_map_notin[OF notin]
      using False by (auto simp add: first_seen_snoc none same)
  qed
qed

lemma group_by_ok:
  assumes "set (as_list cols) \<subseteq> set (columns df)"
  shows "group_by df cols =
           Inr \<lparr>g_df = df, g_group_cols = as_list cols,
                g_groups = map (\<lambda>k. (k, filter (\<lambda>i. key_at df (as_list cols) i = k)
                                           [0..<df_length df]))
                             (first_seen (row_keys df (as_list cols)))\<rparr>"
  by (simp add: group_by_def GroupedDataFrame_def build_groups_def build_groups_loop_ok[OF assms]
        groups_first_seen row_keys_def)

subsection \<open>One output row per group\<close>

lemma group_key_cells:
  "length key = length group_cols \<Longrightarrow>
   fold (\<lambda>(i, col). dd_append col (Val (key ! i))) (zip [0..<length group_cols] group_cols) rd
     = fold (\<lambda>(name, v). dd_append name v) (zip group_cols (map Val key)) rd"
proof -
  assume len: "length key = length group_cols"
  have eq: "zip group_cols (map Val key)
          = map (\<lambda>(i, col). (col, Val (key ! i))) (zip [0..<length group_cols] group_cols)"
    using len by (intro nth_equalityI) auto
  have fn: "(\<lambda>(name, v). dd_append name v) \<circ> (\<lambda>(i, col). (col, Val (key ! i)))
              = (\<lambda>(i, col). dd_append col (Val (key ! i)))"
    by (auto simp: fun_eq_iff)
  show ?thesis by (simp only: eq fold_map fn)
qed

lemma count_one_group:
  assumes "X \<in> set (columns df)" and "length key = length group_cols"
  shows "grouped_agg_groups ops df group_cols [(X, One (FuncName ''count''))]
           ((key, indices) # rest) rd
         = grouped_agg_groups ops df group_cols [(X, One (FuncName ''count''))] rest
             (append_row (group_cols @ [X]) (count_row key (length indices)) rd)"
proof -
  have "append_row (group_cols @ [X]) (count_row key (length indices)) rd
          = dd_append X (Val (PInt (int (length indices))))
              (fold (\<lambda>(name, v). dd_append name v) (zip group_cols (map Val key)) rd)"
    using assms(2) by (simp add: append_row_def count_row_def)
  then show ?thesis
    using assms
    by (simp add: Let_def group_key_cells apply_aggregation_def result_key_def)
qed

lemma count_groups_rows:
  assumes "X \<in> set (columns df)" and "distinct (group_cols @ [X])"
      and "\<forall>(key, indices) \<in> set groups. length key = length group_cols"
  shows "grouped_agg_groups ops df group_cols [(X, One (FuncName ''count''))] groups
           (columns_of (group_cols @ [X]) rows)
         = Inr (columns_of (group_cols @ [X])
                  (rows @ map (\<lambda>(key, indices). count_row key (length indices)) groups))"
  using assms(3)
proof (induction groups arbitrary: rows)
  case Nil
  then show ?case by simp
next
  case (Cons g groups)
  obtain key indices where g: "g = (key, indices)" by (cases g)
  from Cons.prems g have len: "length key = length group_cols" by simp
  have row: "length (count_row key (length indices) :: 'a aggval list) = length (group_cols @ [X])"
    by (simp add: count_row_def len)
  have "grouped_agg_groups ops df group_cols [(X, One (FuncName ''count''))] (g # groups)
           (columns_of (group_cols @ [X]) rows)
        = grouped_agg_groups ops df group_cols [(X, One (FuncName ''count''))] groups
            (columns_of (group_cols @ [X]) (rows @ [count_row key (length indices)]))"
    unfolding g count_one_group[OF assms(1) len]
    by (simp only: columns_of_snoc[OF assms(2) row])
  also have "\<dots> = Inr (columns_of (group_cols @ [X])
                  ((rows @ [count_row key (length indices)])
                   @ map (\<lambda>(key, indices). count_row key (length indices)) groups))"
    by (rule Cons.IH) (use Cons.prems in simp)
  finally show ?case by (simp add: g)
qed

lemma length_filter_count:
  "length (filter (\<lambda>i. f i = k) idxs) = count_list (map f idxs) k"
  by (simp add: count_list_map_filter)

lemma sum_counts_first_seen:
  "sum_list (map (count_list xs) (first_seen xs)) = length xs"
proof -
  have "sum_list (map (count_list xs) (first_seen xs)) = sum (count_list xs) (set (first_seen xs))"
    by (rule sum_list_distinct_conv_sum_set) simp
  also have "\<dots> = length xs"
    by (simp add: sum_count_set)
  finally show ?thesis .
qed

lemma length_first_seen: "length (first_seen xs) = card (set xs)"
  using distinct_card[OF distinct_first_seen, of xs] by simp

text \<open>
  Claim C8, as amended. For a well-formed table, group columns that the table has and a column
  \<open>X\<close> that the table has, when the group columns are pairwise distinct and \<open>X\<close> is not one of
  them, grouping and counting \<open>X\<close> raises no error and gives exactly one output row per distinct
  tuple of values of the group columns; the rows are in the order in which the tuples are first
  seen, each holds the tuple and the number of rows of the table with that tuple, and these
  numbers add up to the row count of the table.
\<close>

theorem group_count_one_row_per_key:
  "wf_df df \<Longrightarrow> set (as_list cols) \<subseteq> set (columns df) \<Longrightarrow> X \<in> set (columns df)
   \<Longrightarrow> distinct (as_list cols @ [X])
   \<Longrightarrow> \<exists>G T. group_by df cols = Inr G
         \<and> grouped_agg ops G [(X, One (FuncName ''count''))] = Inr T
         \<and> df_length T = card (set (row_keys df (as_list cols)))
         \<and> table_rows T
             = map (\<lambda>k. count_row k (count_list (row_keys df (as_list cols)) k))
                 (first_seen (row_keys df (as_list cols)))
         \<and> sum_list (map (count_list (row_keys df (as_list cols)))
                      (first_seen (row_keys df (as_list cols)))) = df_length df
         \<and> (0 < df_length df \<longrightarrow> columns T = as_list cols @ [X])"
proof -
  assume wf: "wf_df df" and sub: "set (as_list cols) \<subseteq> set (columns df)"
    and X: "X \<in> set (columns df)" and d: "distinct (as_list cols @ [X])"
  let ?gc = "as_list cols"
  let ?keys = "row_keys df ?gc"
  let ?groups = "map (\<lambda>k. (k, filter (\<lambda>i. key_at df ?gc i = k) [0..<df_length df]))
                   (first_seen ?keys)"
  let ?G = "\<lparr>g_df = df, g_group_cols = ?gc, g_groups = ?groups\<rparr>"
  let ?rows = "map (\<lambda>k. count_row k (count_list ?keys k)) (first_seen ?keys)
                 :: 'a aggval list list"
  let ?T = "table_of (?gc @ [X]) ?rows"
  have G: "group_by df cols = Inr ?G" by (rule group_by_ok[OF sub])
  have keylen: "\<forall>(key, indices) \<in> set ?groups. length key = length ?gc"
    by (auto simp: row_keys_def key_at_def)
  have start: "([] :: 'a aggval coldict) = columns_of (?gc @ [X]) []"
    by (simp add: columns_of_def)
  have rows_eq: "map (\<lambda>(key, indices). count_row key (length indices)) ?groups = ?rows"
    by (simp add: comp_def length_filter_count row_keys_def)
  have "grouped_agg_groups ops df ?gc [(X, One (FuncName ''count''))] ?groups []
          = Inr (columns_of (?gc @ [X]) ?rows)"
    by (subst start, subst count_groups_rows[OF X d keylen]) (simp only: append_Nil rows_eq)
  then have T: "grouped_agg ops ?G [(X, One (FuncName ''count''))] = Inr ?T"
    by (simp add: grouped_agg_def DataFrame_table_of)
  have len: "df_length ?T = card (set ?keys)"
    by (simp add: length_first_seen)
  have "\<forall>r \<in> set ?rows. length r = length (?gc @ [X])"
    by (auto simp: count_row_def row_keys_def key_at_def)
  then have rows: "table_rows ?T = ?rows" by (rule table_rows_table_of)
  have total: "sum_list (map (count_list ?keys) (first_seen ?keys)) = df_length df"
    by (simp add: sum_counts_first_seen row_keys_def)
  have cols: "0 < df_length df \<longrightarrow> columns ?T = ?gc @ [X]"
  proof
    assume "0 < df_length df"
    then have "?keys \<noteq> []" by (simp add: row_keys_def)
    then have "first_seen ?keys \<noteq> []"
      by (metis set_first_seen set_empty)
    then have "?rows \<noteq> []" by simp
    then show "columns ?T = ?gc @ [X]" by (rule columns_table_of)
  qed
  show ?thesis
    by (intro exI[of _ ?G] exI[of _ ?T] conjI G T len rows total cols)
qed

theorem group_count_one_row_per_key_witness:
  "wf_df noc_ex
   \<and> (\<exists>G T. group_by noc_ex (Str ''NOC'') = Inr G
         \<and> grouped_agg opaque_floats G [(''Medal'', One (FuncName ''count''))] = Inr T
         \<and> df_length T = 2
         \<and> table_rows T = [[Val (PStr ''A''), Val (PInt 2)], [Val (PStr ''B''), Val (PInt 1)]])"
proof -
  have wf: "wf_df noc_ex" by (simp add: wf_df_def noc_ex_def)
  have sub: "set (as_list (Str ''NOC'')) \<subseteq> set (columns noc_ex)"
    and X: "''Medal'' \<in> set (columns noc_ex)"
    by (simp_all add: columns_def noc_ex_def)
  have d: "distinct (as_list (Str ''NOC'') @ [''Medal''])" by simp
  have keys: "row_keys noc_ex (as_list (Str ''NOC'')) = [[PStr ''A''], [PStr ''A''], [PStr ''B'']]"
    by (simp add: row_keys_def key_at_def data_of_def noc_ex_def upt_rec)
  have fs: "first_seen [[PStr ''A''], [PStr ''A''], [PStr ''B'']] = [[PStr ''A''], [PStr ''B'']]"
    by (simp add: first_seen_def)
  have card: "card (set [[PStr ''A''], [PStr ''A''], [PStr ''B'']]) = 2"
    by simp
  from group_count_one_row_per_key[OF wf sub X d, of opaque_floats]
  have "\<exists>G T. group_by noc_ex (Str ''NOC'') = Inr G
         \<and> grouped_agg opaque_floats G [(''Medal'', One (FuncName ''count''))] = Inr T
         \<and> df_length T = card (set (row_keys noc_ex (as_list (Str ''NOC''))))
         \<and> table_rows T
             = map (\<lambda>k. count_row k (count_list (row_keys noc_ex (as_list (Str ''NOC''))) k))
                 (first_seen (row_keys noc_ex (as_list (Str ''NOC''))))"
    by (elim exE conjE) (intro exI conjI, assumption+)
  then have "\<exists>G T. group_by noc_ex (Str ''NOC'') = Inr G
         \<and> grouped_agg opaque_floats G [(''Medal'', One (FuncName ''count''))] = Inr T
         \<and> df_length T = 2
         \<and> table_rows T = [[Val (PStr ''A''), Val (PInt 2)], [Val (PStr ''B''), Val (PInt 1)]]"
    unfolding keys fs card by (simp add: count_row_def)
  with wf show ?thesis by (intro conjI)
qed

theorem group_count_of_group_column_doubles_rows:
  "wf_df noc_ex
   \<and> row_keys noc_ex [''NOC''] = [[PStr ''A''], [PStr ''A''], [PStr ''B'']]
   \<and> group_by noc_ex (Str ''NOC'') = Inr noc_groups
   \<and> grouped_agg opaque_floats noc_groups [(''NOC'', One (FuncName ''count''))]
       = Inr \<lparr>df_data = [(''NOC'', [Val (PStr ''A''), Val (PInt 2), Val (PStr ''B''), Val (PInt 1)])],
              df_length = 4\<rparr>"
  by (simp add: wf_df_def noc_ex_def noc_groups_def row_keys_def key_at_def data_of_def
        group_by_def GroupedDataFrame_def build_groups_def grouped_agg_def columns_def
        apply_aggregation_def result_key_def DataFrame_def upt_rec)

section \<open>Aggregators on a column that holds a value that is not a number\<close>

subsection \<open>Sum and mean\<close>







subsection \<open>Minimum and maximum\<close>






















subsection \<open>Standard deviation and variance\<close>













subsection \<open>Whole-table and grouped aggregation of one column\<close>

















subsection \<open>The aggregators on a column with a string or \<^verbatim>\<open>None\<close>\<close>







end
